theory Spec2Isabelle
  imports Main "HOL-Library.Monad_Syntax"
begin

section \<open>Data model (types.ts)\<close>

text \<open>
  The interfaces of \<^verbatim>\<open>types.ts\<close> become records. A field written \<^verbatim>\<open>f?: T\<close> is an
  \<open>option\<close>. Several interfaces have a field \<^verbatim>\<open>name\<close>, \<^verbatim>\<open>type\<close> or
  \<^verbatim>\<open>description\<close>; a one-letter prefix keeps the selectors apart
  (\<open>pname\<close> for \<^verbatim>\<open>PropInfo.name\<close>, \<open>mname\<close> for \<^verbatim>\<open>MethodInfo.name\<close>, and so on).
  Strings are lists of 8-bit characters: the model is about ASCII source text.
  \<^verbatim>\<open>StyleInfo.properties\<close> is never written by the generator and is left out.
\<close>

record PropInfo =
  pname :: string
  ptype :: string
  defaultValue :: "string option"
  optional :: bool
  pdescription :: "string option"
  inherited :: "bool option"
  inheritedFrom :: "string option"

datatype Visibility = Public | Private | Protected

record ParameterInfo =
  param_name :: string
  param_type :: string
  param_optional :: bool

record MethodInfo =
  mname :: string
  visibility :: Visibility
  returnType :: string
  parameters :: "ParameterInfo list"
  mdescription :: "string option"

record EventInfo =
  ename :: string
  etype :: string
  eparameters :: "string option"
  edescription :: "string option"

record StyleInfo =
  className :: string
  sdescription :: "string option"

text \<open>
  A path is the list of its segments from the file-system root, in normal form
  (the work of Node's \<^verbatim>\<open>path\<close> module on POSIX).
\<close>

type_synonym path = "string list"

datatype ComponentDoc = ComponentDoc
  (componentName: string)
  (componentPath: path)
  (category: string)
  (props: "PropInfo list")
  (methods: "MethodInfo list")
  (events: "EventInfo list")
  (styles: "StyleInfo list")
  (baseClass: "string option")
  (children: "ComponentDoc list option")
  (description: "string option")

section \<open>Configuration (config.ts)\<close>

text \<open>
  Only the parts of \<^verbatim>\<open>GeneratorConfig\<close> that the documentation generator reads are
  modelled. An object used as a dictionary is a map; \<^verbatim>\<open>childComponents[parent]\<close> is
  iterated with \<^verbatim>\<open>Object.entries\<close>, so its value is the list of entries in that order.
\<close>

record ComponentOverride =
  ov_excludeProps :: "string list option"
  ov_excludeMethods :: "string list option"
  ov_excludeStyleClasses :: "string list option"

record DocumentationConfig =
  excludeProps :: "string list"
  excludeInheritedProps :: "string list"
  excludeMethods :: "string list"
  excludeStyleClasses :: "string list"
  componentOverrides :: "string \<rightharpoonup> ComponentOverride"

record GeneratorConfig =
  childComponents :: "string \<rightharpoonup> (string \<times> string) list"
  documentation :: DocumentationConfig

section \<open>Filtering (doc-generator.ts, filterComponentDoc)\<close>

text \<open>
  \<^verbatim>\<open>overrides?.excludeProps?.includes(x)\<close>: false when the component has no override
  entry or the entry has no such list.
\<close>

definition override_includes ::
  "ComponentOverride option \<Rightarrow> (ComponentOverride \<Rightarrow> string list option) \<Rightarrow> string \<Rightarrow> bool" where
  "override_includes overrides field x =
     (case overrides of
        None \<Rightarrow> False
      | Some ov \<Rightarrow> (case field ov of None \<Rightarrow> False | Some xs \<Rightarrow> x \<in> set xs))"

text \<open>The three predicates passed to \<^verbatim>\<open>Array.prototype.filter\<close>, in the order of their checks.\<close>

definition keep_prop :: "DocumentationConfig \<Rightarrow> string \<Rightarrow> PropInfo \<Rightarrow> bool" where
  "keep_prop config cname prop =
     (if pname prop \<in> set (excludeProps config) then False
      else if inherited prop = Some True \<and> pname prop \<in> set (excludeInheritedProps config) then False
      else if override_includes (componentOverrides config cname) ov_excludeProps (pname prop) then False
      else True)"

definition keep_method :: "DocumentationConfig \<Rightarrow> string \<Rightarrow> MethodInfo \<Rightarrow> bool" where
  "keep_method config cname method =
     (if mname method \<in> set (excludeMethods config) then False
      else if override_includes (componentOverrides config cname) ov_excludeMethods (mname method) then False
      else True)"

definition keep_style :: "DocumentationConfig \<Rightarrow> string \<Rightarrow> StyleInfo \<Rightarrow> bool" where
  "keep_style config cname style =
     (if className style \<in> set (excludeStyleClasses config) then False
      else if override_includes (componentOverrides config cname) ov_excludeStyleClasses (className style) then False
      else True)"

definition filterComponentDoc :: "GeneratorConfig \<Rightarrow> ComponentDoc \<Rightarrow> ComponentDoc" where
  "filterComponentDoc cfg doc =
     (let config = documentation cfg;
          filteredProps = filter (keep_prop config (componentName doc)) (props doc);
          filteredMethods = filter (keep_method config (componentName doc)) (methods doc);
          filteredStyles = filter (keep_style config (componentName doc)) (styles doc)
      in ComponentDoc (componentName doc) (componentPath doc) (category doc)
           filteredProps filteredMethods (events doc) filteredStyles
           (baseClass doc) (children doc) (description doc))"

section \<open>JavaScript string operations\<close>

text \<open>
  The \<^verbatim>\<open>String.prototype\<close> methods and the regular expressions that the generator
  uses, on ASCII text. \<open>is_space\<close> is the class \<^verbatim>\<open>\s\<close>, \<open>is_word\<close> the class
  \<^verbatim>\<open>\w\<close>, \<open>is_line_terminator\<close> what \<^verbatim>\<open>.\<close> does not match.
\<close>

definition is_space :: "char \<Rightarrow> bool" where
  "is_space c = (c \<in> set [CHR '' '', CHR 0x09, CHR 0x0A, CHR 0x0B, CHR 0x0C, CHR 0x0D])"

definition is_line_terminator :: "char \<Rightarrow> bool" where
  "is_line_terminator c = (c \<in> set [CHR 0x0A, CHR 0x0D])"

definition upper_chars :: string where
  "upper_chars = ''ABCDEFGHIJKLMNOPQRSTUVWXYZ''"

definition lower_chars :: string where
  "lower_chars = ''abcdefghijklmnopqrstuvwxyz''"

definition digit_chars :: string where
  "digit_chars = ''0123456789''"

definition is_word :: "char \<Rightarrow> bool" where
  "is_word c = (c \<in> set (upper_chars @ lower_chars @ digit_chars @ ''_''))"

definition is_quote :: "char \<Rightarrow> bool" where
  "is_quote c = (c \<in> set [CHR 0x27, CHR 0x22])"

definition toLowerCase :: "string \<Rightarrow> string" where
  "toLowerCase s =
     map (\<lambda>c. case map_of (zip upper_chars lower_chars) c of Some l \<Rightarrow> l | None \<Rightarrow> c) s"

fun startsWith :: "string \<Rightarrow> string \<Rightarrow> bool" where
  "startsWith s [] = True"
| "startsWith [] (p # ps) = False"
| "startsWith (c # cs) (p # ps) = (c = p \<and> startsWith cs ps)"

definition endsWith :: "string \<Rightarrow> string \<Rightarrow> bool" where
  "endsWith s suf = startsWith (rev s) (rev suf)"

text \<open>\<^verbatim>\<open>s.includes(pat)\<close>: \<open>pat\<close> occurs somewhere in \<open>s\<close>.\<close>

fun str_includes :: "string \<Rightarrow> string \<Rightarrow> bool" where
  "str_includes [] pat = (pat = [])"
| "str_includes (c # cs) pat = (startsWith (c # cs) pat \<or> str_includes cs pat)"

text \<open>
  \<^verbatim>\<open>s.replace(pat, rep)\<close> with a string pattern: only the first occurrence is replaced.
  (\<open>rep\<close> is always the empty string in the generator, so the \<^verbatim>\<open>$\<close> patterns of a
  replacement string do not arise.)
\<close>

fun replace_first :: "string \<Rightarrow> string \<Rightarrow> string \<Rightarrow> string" where
  "replace_first [] pat rep = (if pat = [] then rep else [])"
| "replace_first (c # cs) pat rep =
     (if startsWith (c # cs) pat then rep @ drop (length pat) (c # cs)
      else c # replace_first cs pat rep)"

text \<open>\<^verbatim>\<open>s.replace(/Suffix$/, '')\<close>.\<close>

definition strip_suffix :: "string \<Rightarrow> string \<Rightarrow> string" where
  "strip_suffix s suf = (if endsWith s suf then take (length s - length suf) s else s)"

text \<open>\<^verbatim>\<open>s.trim()\<close>, \<^verbatim>\<open>s.split(',')\<close> and \<^verbatim>\<open>xs.join(', ')\<close>.\<close>

definition trim :: "string \<Rightarrow> string" where
  "trim s = rev (dropWhile is_space (rev (dropWhile is_space s)))"

fun split :: "char \<Rightarrow> string \<Rightarrow> string list" where
  "split sep [] = [[]]"
| "split sep (c # cs) =
     (if c = sep then [] # split sep cs
      else (case split sep cs of [] \<Rightarrow> [[c]] | x # xs \<Rightarrow> (c # x) # xs))"

fun join :: "string \<Rightarrow> string list \<Rightarrow> string" where
  "join sep [] = []"
| "join sep [x] = x"
| "join sep (x # y # ys) = x @ sep @ join sep (y # ys)"

text \<open>\<^verbatim>\<open>[...new Set(xs)]\<close>: the first occurrence of each element, in order.\<close>

fun unique :: "'a list \<Rightarrow> 'a list \<Rightarrow> 'a list" where
  "unique seen [] = []"
| "unique seen (x # xs) = (if x \<in> set seen then unique seen xs else x # unique (seen @ [x]) xs)"

text \<open>
  The pieces of a regular-expression match at the start of a string: a literal, one
  character of a class. Each returns the rest of the string.
\<close>

fun strip_prefix :: "string \<Rightarrow> string \<Rightarrow> string option" where
  "strip_prefix [] s = Some s"
| "strip_prefix (p # ps) [] = None"
| "strip_prefix (p # ps) (c # cs) = (if c = p then strip_prefix ps cs else None)"

fun expect :: "(char \<Rightarrow> bool) \<Rightarrow> string \<Rightarrow> string option" where
  "expect P [] = None"
| "expect P (c # cs) = (if P c then Some cs else None)"

text \<open>
  \<^verbatim>\<open>str.replace(/([a-z0-9])([A-Z])/g, '$1-$2').toLowerCase()\<close>: the matches of a
  global pattern do not overlap, the scan resumes after the upper-case letter.
\<close>

fun hyphenate :: "string \<Rightarrow> string" where
  "hyphenate (x # y # rest) =
     (if x \<in> set (lower_chars @ digit_chars) \<and> y \<in> set upper_chars
      then x # CHR ''-'' # y # hyphenate rest
      else x # hyphenate (y # rest))"
| "hyphenate s = s"

definition toKebab :: "string \<Rightarrow> string" where
  "toKebab str = toLowerCase (hyphenate str)"

text \<open>\<^verbatim>\<open>text.replace(/DEFAULT_CLASS/g, rep)\<close> for a replacement without \<^verbatim>\<open>$\<close>.\<close>

fun replace_all :: "string \<Rightarrow> string \<Rightarrow> string \<Rightarrow> nat \<Rightarrow> string" where
  "replace_all [] pat rep skip = []"
| "replace_all (c # cs) pat rep (Suc k) = replace_all cs pat rep k"
| "replace_all (c # cs) pat rep 0 =
     (if startsWith (c # cs) pat then rep @ replace_all cs pat rep (length pat - 1)
      else c # replace_all cs pat rep 0)"

text \<open>
  \<^verbatim>\<open>s.replace(/\s*\+\s*/g, '')\<close>: a plus sign goes with the white space around it.
  White space that no plus sign follows stays. The flag says that the scan is in the
  white space after a plus sign.
\<close>

fun remove_plus :: "bool \<Rightarrow> string \<Rightarrow> string" where
  "remove_plus after [] = []"
| "remove_plus after (c # cs) =
     (if after \<and> is_space c then remove_plus True cs
      else if startsWith (dropWhile is_space (c # cs)) ''+'' then remove_plus (c = CHR ''+'') cs
      else c # remove_plus False cs)"

section \<open>The syntax tree (the part of the TypeScript compiler API that the parser reads)\<close>

text \<open>
  \<^verbatim>\<open>ts.createSourceFile\<close> belongs to the \<^verbatim>\<open>typescript\<close> package; the model starts
  from its result. A node carries what the visitors read from it (\<open>NodeKind\<close>) and the
  children that \<^verbatim>\<open>ts.forEachChild\<close> visits, in document order. Where the source calls
  \<^verbatim>\<open>getText(sourceFile)\<close> the tree holds that text.

  A heritage clause holds its token and the text of \<^verbatim>\<open>types[0].expression\<close>: in a
  syntactically valid file the list of types is not empty, and each is an
  \<^verbatim>\<open>ExpressionWithTypeArguments\<close>.
\<close>

datatype HeritageToken = ExtendsKeyword | ImplementsKeyword

datatype HeritageClause = HeritageClause (token: HeritageToken) (first_type_expression: string)

datatype Modifier = PrivateKeyword | ProtectedKeyword | OtherModifier

datatype ParameterName = Identifier string | BindingPattern

datatype Parameter = Parameter (parameter_name: ParameterName) (parameter_question: bool)
  (parameter_type: "string option")

datatype Member =
    PropertyDeclaration string bool "string option" "string option"
  | PropertySignature string bool "string option"
  | MethodDeclaration string "Modifier list" "string option" "Parameter list"
  | OtherMember

datatype TypeNode = TypeLiteral "Member list" | OtherType

datatype Expression = StringLiteral string | BinaryExpression string | OtherExpression

datatype Callee = IdentifierCallee string | PropertyAccessCallee string | OtherCallee

datatype VariableDeclaration =
  VariableDeclaration (declared_identifier: "string option") (initializer: "Expression option")

datatype NodeKind =
    ClassDeclaration "string option" "HeritageClause list" "Member list"
  | InterfaceDeclaration string "HeritageClause list" "Member list"
  | TypeAliasDeclaration string TypeNode
  | VariableStatement "VariableDeclaration list"
  | CallExpression Callee "Expression list"
  | OtherNode

datatype Node = Node (kind: NodeKind) (child_nodes: "Node list")

section \<open>TypeScriptParser.extractProps\<close>

record PropsResult =
  r_props :: "PropInfo list"
  r_className :: string
  r_baseClass :: "string option"

text \<open>The clean-up of an initializer's text (the branches under \<^verbatim>\<open>if (member.initializer)\<close>).\<close>

definition clean_initializer :: "string \<Rightarrow> string" where
  "clean_initializer initText =
     (if initText = ''null as any'' then ''null''
      else if endsWith initText '' as any'' then replace_first initText '' as any'' []
      else initText)"

text \<open>The loop over \<^verbatim>\<open>node.heritageClauses\<close>: the last \<^verbatim>\<open>extends\<close> clause wins.\<close>

definition heritage_baseClass :: "HeritageClause list \<Rightarrow> string option" where
  "heritage_baseClass hs =
     fold (\<lambda>h b. if token h = ExtendsKeyword then Some (first_type_expression h) else b) hs None"

text \<open>A member of a class: only property declarations become properties.\<close>

fun class_member_prop :: "Member \<Rightarrow> PropInfo option" where
  "class_member_prop (PropertyDeclaration propName question ty init) =
     Some \<lparr> pname = propName,
            ptype = (case ty of None \<Rightarrow> ''any'' | Some t \<Rightarrow> t),
            defaultValue = map_option clean_initializer init,
            optional = question,
            pdescription = None,
            inherited = Some False,
            inheritedFrom = None \<rparr>"
| "class_member_prop _ = None"

text \<open>A member of an interface or of a type literal: only property signatures.\<close>

fun signature_member_prop :: "Member \<Rightarrow> PropInfo option" where
  "signature_member_prop (PropertySignature propName question ty) =
     Some \<lparr> pname = propName,
            ptype = (case ty of None \<Rightarrow> ''any'' | Some t \<Rightarrow> t),
            defaultValue = None,
            optional = question,
            pdescription = None,
            inherited = Some False,
            inheritedFrom = None \<rparr>"
| "signature_member_prop _ = None"

text \<open>
  What the visitor assigns to \<^verbatim>\<open>result\<close> at one node, if anything: the three
  \<^verbatim>\<open>if\<close> blocks of \<^verbatim>\<open>visit\<close>.
\<close>

fun props_of_declaration :: "NodeKind \<Rightarrow> PropsResult option" where
  "props_of_declaration (ClassDeclaration (Some cname) hs ms) =
     (if endsWith cname ''Props''
      then Some \<lparr> r_props = List.map_filter class_member_prop ms, r_className = cname,
                  r_baseClass = heritage_baseClass hs \<rparr>
      else None)"
| "props_of_declaration (InterfaceDeclaration iname hs ms) =
     (if endsWith iname ''Props''
      then Some \<lparr> r_props = List.map_filter signature_member_prop ms, r_className = iname,
                  r_baseClass = heritage_baseClass hs \<rparr>
      else None)"
| "props_of_declaration (TypeAliasDeclaration tname (TypeLiteral ms)) =
     (if endsWith tname ''Props''
      then Some \<lparr> r_props = List.map_filter signature_member_prop ms, r_className = tname,
                  r_baseClass = None \<rparr>
      else None)"
| "props_of_declaration _ = None"

text \<open>
  \<^verbatim>\<open>visit\<close>: the node itself, then its children in order. The variable
  \<^verbatim>\<open>result\<close> that the closure assigns is passed along.
\<close>

fun visit_props :: "Node \<Rightarrow> PropsResult option \<Rightarrow> PropsResult option" where
  "visit_props (Node k cs) result =
     fold visit_props cs
       (case props_of_declaration k of Some r \<Rightarrow> Some r | None \<Rightarrow> result)"

definition extractProps :: "(string \<Rightarrow> Node) \<Rightarrow> string \<Rightarrow> PropsResult option" where
  "extractProps createSourceFile sourceCode = visit_props (createSourceFile sourceCode) None"

section \<open>TypeScriptParser.extractMethods\<close>

record MethodsResult =
  r_methods :: "MethodInfo list"
  r_methodsClassName :: string

definition lifecycle_methods :: "string list" where
  "lifecycle_methods = [''constructor'', ''render'', ''componentDidMount'',
     ''componentWillUnmount'', ''shouldComponentUpdate'', ''componentDidUpdate'']"

definition modifiers_visibility :: "Modifier list \<Rightarrow> Visibility" where
  "modifiers_visibility ms =
     fold (\<lambda>m v. if m = PrivateKeyword then Private
                  else if m = ProtectedKeyword then Protected else v) ms Public"

fun parameter_info :: "Parameter \<Rightarrow> ParameterInfo option" where
  "parameter_info (Parameter (Identifier paramName) question ty) =
     Some \<lparr> param_name = paramName,
            param_type = (case ty of None \<Rightarrow> ''any'' | Some t \<Rightarrow> t),
            param_optional = question \<rparr>"
| "parameter_info (Parameter BindingPattern question ty) = None"

fun member_method :: "Member \<Rightarrow> MethodInfo option" where
  "member_method (MethodDeclaration methodName mods ty params) =
     (if methodName \<in> set lifecycle_methods then None
      else if modifiers_visibility mods \<noteq> Public then None
      else Some \<lparr> mname = methodName,
                  visibility = modifiers_visibility mods,
                  returnType = (case ty of None \<Rightarrow> ''void'' | Some t \<Rightarrow> t),
                  parameters = List.map_filter parameter_info params,
                  mdescription = None \<rparr>)"
| "member_method _ = None"

fun methods_of_declaration :: "NodeKind \<Rightarrow> MethodsResult option" where
  "methods_of_declaration (ClassDeclaration (Some cname) hs ms) =
     (if \<not> endsWith cname ''Props'' \<and> \<not> endsWith cname ''Styles'' \<and> \<not> endsWith cname ''State''
      then Some \<lparr> r_methods = List.map_filter member_method ms, r_methodsClassName = cname \<rparr>
      else None)"
| "methods_of_declaration _ = None"

fun visit_methods :: "Node \<Rightarrow> MethodsResult option \<Rightarrow> MethodsResult option" where
  "visit_methods (Node k cs) result =
     fold visit_methods cs
       (case methods_of_declaration k of Some r \<Rightarrow> Some r | None \<Rightarrow> result)"

definition extractMethods :: "(string \<Rightarrow> Node) \<Rightarrow> string \<Rightarrow> MethodsResult option" where
  "extractMethods createSourceFile sourceCode = visit_methods (createSourceFile sourceCode) None"

section \<open>TypeScriptParser.extractStyleClasses\<close>

record StylesResult =
  r_defaultClass :: string
  r_styleClasses :: "string list"

text \<open>
  The resolution of a binary expression such as \<^verbatim>\<open>DEFAULT_CLASS + '-disabled'\<close>:
  the constant's name is replaced by its quoted value, then the three quote characters
  and the plus signs are removed. Nothing in the \<^verbatim>\<open>try\<close> block can throw. (The
  value of the constant is taken to hold no dollar sign, which
  \<^verbatim>\<open>String.prototype.replace\<close> would read as a pattern of the replacement.)
\<close>

definition resolve_class_name :: "string \<Rightarrow> string \<Rightarrow> string" where
  "resolve_class_name defaultClass text =
     (if str_includes text ''DEFAULT_CLASS'' \<and> defaultClass \<noteq> []
      then remove_plus False
             (filter (\<lambda>c. c \<notin> set [CHR 0x27, CHR 0x22, CHR 0x60])
                (replace_all text ''DEFAULT_CLASS'' ([CHR 0x27] @ defaultClass @ [CHR 0x27]) 0))
      else text)"

definition push_unique :: "string \<Rightarrow> string list \<Rightarrow> string list" where
  "push_unique cls styleClasses = (if cls \<in> set styleClasses then styleClasses else styleClasses @ [cls])"

fun declaration_default_class :: "VariableDeclaration \<Rightarrow> string \<Rightarrow> string" where
  "declaration_default_class (VariableDeclaration (Some ident) (Some (StringLiteral t))) defaultClass =
     (if ident = ''DEFAULT_CLASS'' then t else defaultClass)"
| "declaration_default_class _ defaultClass = defaultClass"

fun isAddStyleCall :: "Callee \<Rightarrow> bool" where
  "isAddStyleCall (IdentifierCallee t) = (t = ''addStyle'')"
| "isAddStyleCall (PropertyAccessCallee t) = (t = ''addStyle'')"
| "isAddStyleCall OtherCallee = False"

text \<open>What the visitor does at one node, on the two variables of the closure.\<close>

fun styles_at_node :: "NodeKind \<Rightarrow> StylesResult \<Rightarrow> StylesResult" where
  "styles_at_node (VariableStatement decls) acc =
     acc \<lparr> r_defaultClass := fold declaration_default_class decls (r_defaultClass acc) \<rparr>"
| "styles_at_node (CallExpression callee args) acc =
     (if isAddStyleCall callee then
        (case args of
           [] \<Rightarrow> acc
         | StringLiteral t # _ \<Rightarrow> acc \<lparr> r_styleClasses := push_unique t (r_styleClasses acc) \<rparr>
         | BinaryExpression text # _ \<Rightarrow>
             acc \<lparr> r_styleClasses :=
                     push_unique (resolve_class_name (r_defaultClass acc) text) (r_styleClasses acc) \<rparr>
         | OtherExpression # _ \<Rightarrow> acc)
      else acc)"
| "styles_at_node _ acc = acc"

fun visit_styles :: "Node \<Rightarrow> StylesResult \<Rightarrow> StylesResult" where
  "visit_styles (Node k cs) acc = fold visit_styles cs (styles_at_node k acc)"

definition extractStyleClasses :: "(string \<Rightarrow> Node) \<Rightarrow> string \<Rightarrow> StylesResult option" where
  "extractStyleClasses createSourceFile sourceCode =
     (let r = visit_styles (createSourceFile sourceCode) \<lparr> r_defaultClass = [], r_styleClasses = [] \<rparr>
      in if r_defaultClass r \<noteq> [] \<or> r_styleClasses r \<noteq> [] then Some r else None)"

section \<open>TypeScriptParser.extractEvents and extractEventCallbacks\<close>

record DeclaredEvent =
  de_name :: string
  de_type :: string

definition extractEvents :: "PropInfo list \<Rightarrow> DeclaredEvent list" where
  "extractEvents ps =
     map (\<lambda>prop. \<lparr> de_name = pname prop, de_type = ptype prop \<rparr>)
       (filter (\<lambda>prop. startsWith (pname prop) ''on'' \<and>
                        (ptype prop = ''Function'' \<or> str_includes (ptype prop) ''=>'')) ps)"

text \<open>
  One match of
  \<^verbatim>\<open>/invokeEventCallback\s*\(\s*['"](\w+)['"]\s*,\s*\[([^\]]*)\]\s*\)/\<close>
  at the start of a string: the two groups and the rest of the string. Every greedy
  repetition is followed by a character outside its class, so no backtracking changes
  the result.
\<close>

definition match_invoke :: "string \<Rightarrow> ((string \<times> string) \<times> string) option" where
  "match_invoke s = do {
     s1 \<leftarrow> strip_prefix ''invokeEventCallback'' s;
     s2 \<leftarrow> expect (\<lambda>c. c = CHR ''('') (dropWhile is_space s1);
     s3 \<leftarrow> expect is_quote (dropWhile is_space s2);
     s4 \<leftarrow> (if takeWhile is_word s3 = [] then None else expect is_quote (dropWhile is_word s3));
     s5 \<leftarrow> expect (\<lambda>c. c = CHR '','') (dropWhile is_space s4);
     s6 \<leftarrow> expect (\<lambda>c. c = CHR ''['') (dropWhile is_space s5);
     s7 \<leftarrow> expect (\<lambda>c. c = CHR '']'') (dropWhile (\<lambda>c. c \<noteq> CHR '']'') s6);
     s8 \<leftarrow> expect (\<lambda>c. c = CHR '')'') (dropWhile is_space s7);
     Some ((takeWhile is_word s3, takeWhile (\<lambda>c. c \<noteq> CHR '']'') s6), s8)
   }"

text \<open>
  The loop \<^verbatim>\<open>while ((match = pattern.exec(text)) !== null)\<close> of a global pattern:
  the leftmost match from \<^verbatim>\<open>lastIndex\<close> on, then the search resumes after it. The
  number says how many characters of the last match are still to be passed over.
\<close>

fun exec_all :: "(string \<Rightarrow> ('a \<times> string) option) \<Rightarrow> nat \<Rightarrow> string \<Rightarrow> 'a list" where
  "exec_all m k [] = []"
| "exec_all m (Suc k) (c # cs) = exec_all m k cs"
| "exec_all m 0 (c # cs) =
     (case m (c # cs) of
        Some (x, rest) \<Rightarrow> x # exec_all m (length cs - length rest) cs
      | None \<Rightarrow> exec_all m 0 cs)"

record EventCallback =
  cb_name :: string
  cb_parameters :: string

text \<open>The parameter list of one call: the arguments but the target.\<close>

definition callback_parameters :: "string \<Rightarrow> string" where
  "callback_parameters params =
     (let paramList = filter (\<lambda>p. p \<noteq> [] \<and> p \<noteq> ''this.props.target'' \<and> p \<noteq> ''target'')
                        (map trim (split CHR '','' params))
      in if paramList \<noteq> [] then ''('' @ join '', '' paramList @ '')'' else ''()'')"

text \<open>The body of the loop: \<open>eventSet\<close> holds the names already seen.\<close>

fun collect_callbacks :: "(string \<times> string) list \<Rightarrow> string list \<Rightarrow> EventCallback list" where
  "collect_callbacks [] eventSet = []"
| "collect_callbacks ((eventName, raw) # ms) eventSet =
     (if eventName \<in> set eventSet then collect_callbacks ms eventSet
      else \<lparr> cb_name = eventName, cb_parameters = callback_parameters (trim raw) \<rparr>
             # collect_callbacks ms (eventSet @ [eventName]))"

definition extractEventCallbacks :: "string \<Rightarrow> EventCallback list" where
  "extractEventCallbacks sourceCode = collect_callbacks (exec_all match_invoke 0 sourceCode) []"

section \<open>The world outside the program\<close>

text \<open>
  The file system is a tree of directories, regular files and other entries (links,
  devices). A directory lists its entries in the order \<^verbatim>\<open>readdirSync\<close> returns them.
  An operation of \<^verbatim>\<open>fs\<close> that throws returns \<open>None\<close>: reading a file that is
  missing or a directory, listing what is not a directory. Permissions are not modelled.
\<close>

datatype FsNode = File string | Directory "(string \<times> FsNode) list" | Special

fun fs_lookup :: "FsNode \<Rightarrow> path \<Rightarrow> FsNode option" where
  "fs_lookup n [] = Some n"
| "fs_lookup (Directory es) (seg # p) =
     (case map_of es seg of Some child \<Rightarrow> fs_lookup child p | None \<Rightarrow> None)"
| "fs_lookup (File content) (seg # p) = None"
| "fs_lookup Special (seg # p) = None"

definition existsSync :: "FsNode \<Rightarrow> path \<Rightarrow> bool" where
  "existsSync root p = (fs_lookup root p \<noteq> None)"

definition readFileSync :: "FsNode \<Rightarrow> path \<Rightarrow> string option" where
  "readFileSync root p = (case fs_lookup root p of Some (File content) \<Rightarrow> Some content | _ \<Rightarrow> None)"

definition readdirSync :: "FsNode \<Rightarrow> path \<Rightarrow> string list option" where
  "readdirSync root p = (case fs_lookup root p of Some (Directory es) \<Rightarrow> Some (map fst es) | _ \<Rightarrow> None)"

text \<open>
  \<^verbatim>\<open>path.join(base, rel)\<close> and \<^verbatim>\<open>path.resolve(base, rel)\<close> for a normalised
  absolute \<open>base\<close>: the segments of \<open>rel\<close> are applied one by one.
  \<^verbatim>\<open>path.basename\<close> is the last segment.
\<close>

definition apply_segment :: "string \<Rightarrow> path \<Rightarrow> path" where
  "apply_segment seg p =
     (if seg = [] \<or> seg = ''.'' then p
      else if seg = ''..'' then butlast p
      else p @ [seg])"

definition path_join :: "path \<Rightarrow> string \<Rightarrow> path" where
  "path_join base rel = fold apply_segment (split CHR ''/'' rel) base"

definition path_resolve :: "path \<Rightarrow> string \<Rightarrow> path" where
  "path_resolve base rel = (if startsWith rel ''/'' then path_join [] rel else path_join base rel)"

definition basename :: "path \<Rightarrow> string" where
  "basename p = (if p = [] then [] else last p)"

text \<open>
  \<^verbatim>\<open>JSON.parse\<close> of a source map: it throws, or gives \<^verbatim>\<open>null\<close>, or an object whose
  \<^verbatim>\<open>sourcesContent\<close>, when present, is a list of strings. (An entry \<^verbatim>\<open>null\<close> of
  that list is the empty string here: every caller only tests the entry for truthiness
  before it uses it.)
\<close>

datatype ParsedJson = JsonSyntaxError | JsonNull | SourceMapContent (sourcesContent: "string list option")

record World =
  fs_root :: FsNode
  createSourceFile :: "string \<Rightarrow> Node"
  jsonParse :: "string \<Rightarrow> ParsedJson"

text \<open>What the program writes to the console, one constructor for each call site.\<close>

datatype ConsoleMessage =
    ErrorReadingSourceMap path
  | ErrorNoSourceContent path
  | ErrorSourceIndexOutOfBounds nat path
  | ErrorReading path
  | DebugResolvingParent string "path option"
  | WarnNoParentPropsFile string
  | DebugExtractedProps nat string "string option"
  | ErrorExtracting string
  | WarnNoSourceFiles path
  | WarnChildPathNotFound path string string
  | ErrorGeneratingDocs path

text \<open>
  The mutable state of a run: the field \<^verbatim>\<open>basePropsCache\<close> of the generator and
  the console.
\<close>

record GenState =
  basePropsCache :: "PropInfo list option"
  console :: "ConsoleMessage list"

definition emit :: "ConsoleMessage \<Rightarrow> GenState \<Rightarrow> GenState" where
  "emit m st = st \<lparr> console := console st @ [m] \<rparr>"

text \<open>
  JavaScript's truthiness of an optional string: \<open>truthy x = Some s\<close> when the string
  is present and not empty, \<open>None\<close> when \<^verbatim>\<open>if (x)\<close> takes the other branch.
\<close>

fun truthy :: "string option \<Rightarrow> string option" where
  "truthy None = None"
| "truthy (Some s) = (if s = [] then None else Some s)"

section \<open>SourceExtractor (source-extractor.ts)\<close>

definition readSourceMap :: "World \<Rightarrow> path \<Rightarrow> GenState \<Rightarrow> ParsedJson option \<times> GenState" where
  "readSourceMap w mapFilePath st =
     (case readFileSync (fs_root w) mapFilePath of
        None \<Rightarrow> (None, emit (ErrorReadingSourceMap mapFilePath) st)
      | Some content \<Rightarrow>
          (case jsonParse w content of
             JsonSyntaxError \<Rightarrow> (None, emit (ErrorReadingSourceMap mapFilePath) st)
           | parsed \<Rightarrow> (Some parsed, st)))"

definition extractSourceContent ::
  "World \<Rightarrow> path \<Rightarrow> nat \<Rightarrow> GenState \<Rightarrow> string option \<times> GenState" where
  "extractSourceContent w mapFilePath sourceIndex st =
     (case readSourceMap w mapFilePath st of
        (None, st1) \<Rightarrow> (None, st1)
      | (Some JsonSyntaxError, st1) \<Rightarrow> (None, st1)
      | (Some JsonNull, st1) \<Rightarrow> (None, st1)
      | (Some (SourceMapContent None), st1) \<Rightarrow> (None, emit (ErrorNoSourceContent mapFilePath) st1)
      | (Some (SourceMapContent (Some contents)), st1) \<Rightarrow>
          if contents = [] then (None, emit (ErrorNoSourceContent mapFilePath) st1)
          else if sourceIndex \<ge> length contents
          then (None, emit (ErrorSourceIndexOutOfBounds sourceIndex mapFilePath) st1)
          else (Some (contents ! sourceIndex), st1))"

record Sources =
  src_props :: "string option"
  src_component :: "string option"
  src_styles :: "string option"

text \<open>
  The direct-source form: an \<^verbatim>\<open>index.tsx\<close> or \<^verbatim>\<open>index.ts\<close> entry. Each read has its
  own \<^verbatim>\<open>try\<close>: a failure is logged and leaves the field as it was.
\<close>

definition read_into ::
  "World \<Rightarrow> path \<Rightarrow> (string \<Rightarrow> Sources \<Rightarrow> Sources) \<Rightarrow> Sources \<times> GenState \<Rightarrow> Sources \<times> GenState" where
  "read_into w p assign acc =
     (case readFileSync (fs_root w) p of
        Some content \<Rightarrow> (assign content (fst acc), snd acc)
      | None \<Rightarrow> (fst acc, emit (ErrorReading p) (snd acc)))"

definition direct_sources :: "World \<Rightarrow> path \<Rightarrow> string list \<Rightarrow> string \<Rightarrow> GenState \<Rightarrow> Sources \<times> GenState" where
  "direct_sources w componentDir files indexTsx st =
     (let acc0 = (\<lparr> src_props = None, src_component = None, src_styles = None \<rparr>, st);
          acc1 = read_into w (componentDir @ [indexTsx])
                   (\<lambda>content s. s \<lparr> src_component := Some content, src_props := Some content \<rparr>) acc0;
          acc2 = (case find (\<lambda>f. f = ''types.ts'' \<or> f = ''types.tsx'' \<or> endsWith f ''.types.ts'') files of
                    None \<Rightarrow> acc1
                  | Some typesFile \<Rightarrow>
                      read_into w (componentDir @ [typesFile])
                        (\<lambda>content s. s \<lparr> src_props := Some content \<rparr>) acc1);
          acc3 = (case find (\<lambda>f. f = ''styles.ts'' \<or> f = ''styles.tsx'' \<or>
                                   endsWith f ''.styles.ts'' \<or> endsWith f ''.styles.tsx'') files of
                    None \<Rightarrow> acc2
                  | Some stylesFile \<Rightarrow>
                      read_into w (componentDir @ [stylesFile])
                        (\<lambda>content s. s \<lparr> src_styles := Some content \<rparr>) acc2)
      in acc3)"

text \<open>
  The compiled-artifact form: the first \<^verbatim>\<open>.props.js.map\<close>, \<^verbatim>\<open>.component.js.map\<close>
  and \<^verbatim>\<open>.styles.js.map\<close> of the directory; \<^verbatim>\<open>if (content)\<close> keeps a text that is
  not empty.
\<close>

definition map_into ::
  "World \<Rightarrow> path \<Rightarrow> string list \<Rightarrow> string \<Rightarrow> (string \<Rightarrow> Sources \<Rightarrow> Sources) \<Rightarrow>
     Sources \<times> GenState \<Rightarrow> Sources \<times> GenState" where
  "map_into w componentDir files suffix assign acc =
     (case find (\<lambda>f. endsWith f suffix) files of
        None \<Rightarrow> acc
      | Some mapFile \<Rightarrow>
          (case extractSourceContent w (componentDir @ [mapFile]) 0 (snd acc) of
             (content, st1) \<Rightarrow>
               (case truthy content of
                  Some text \<Rightarrow> (assign text (fst acc), st1)
                | None \<Rightarrow> (fst acc, st1))))"

definition compiled_sources :: "World \<Rightarrow> path \<Rightarrow> string list \<Rightarrow> GenState \<Rightarrow> Sources \<times> GenState" where
  "compiled_sources w componentDir files st =
     (let acc0 = (\<lparr> src_props = None, src_component = None, src_styles = None \<rparr>, st);
          acc1 = map_into w componentDir files ''.props.js.map''
                   (\<lambda>content s. s \<lparr> src_props := Some content \<rparr>) acc0;
          acc2 = map_into w componentDir files ''.component.js.map''
                   (\<lambda>content s. s \<lparr> src_component := Some content \<rparr>) acc1;
          acc3 = map_into w componentDir files ''.styles.js.map''
                   (\<lambda>content s. s \<lparr> src_styles := Some content \<rparr>) acc2
      in acc3)"

text \<open>
  \<^verbatim>\<open>extractComponentSources\<close>: \<open>None\<close> when \<^verbatim>\<open>fs.readdirSync(componentDir)\<close>
  throws, which nothing in this function catches.
\<close>

definition extractComponentSources :: "World \<Rightarrow> path \<Rightarrow> GenState \<Rightarrow> (Sources \<times> GenState) option" where
  "extractComponentSources w componentDir st =
     (case readdirSync (fs_root w) componentDir of
        None \<Rightarrow> None
      | Some files \<Rightarrow>
          (case find (\<lambda>f. f = ''index.tsx'' \<or> f = ''index.ts'') files of
             Some indexTsx \<Rightarrow> Some (direct_sources w componentDir files indexTsx st)
           | None \<Rightarrow> Some (compiled_sources w componentDir files st)))"

section \<open>DocumentationGenerator (doc-generator.ts)\<close>

record Generator =
  componentsPath :: path
  config :: GeneratorConfig

subsection \<open>getBaseProps\<close>

text \<open>
  The test \<^verbatim>\<open>propsInfo && propsInfo.className === 'BaseProps'\<close> on the declaration
  extracted from a source text.
\<close>

definition base_props_of_source :: "World \<Rightarrow> string \<Rightarrow> PropInfo list option" where
  "base_props_of_source w baseSource =
     (case extractProps (createSourceFile w) baseSource of
        None \<Rightarrow> None
      | Some propsInfo \<Rightarrow>
          if r_className propsInfo = ''BaseProps'' then Some (r_props propsInfo) else None)"

text \<open>
  The loop over \<^verbatim>\<open>possiblePaths\<close>. A read that throws leaves the \<^verbatim>\<open>try\<close> block:
  the function then returns the empty list and caches nothing, as when no path matches.
\<close>

fun base_props_of_paths :: "World \<Rightarrow> path list \<Rightarrow> PropInfo list option" where
  "base_props_of_paths w [] = None"
| "base_props_of_paths w (basePath # rest) =
     (if existsSync (fs_root w) basePath then
        (case readFileSync (fs_root w) basePath of
           None \<Rightarrow> None
         | Some baseSource \<Rightarrow>
             (case base_props_of_source w baseSource of
                Some ps \<Rightarrow> Some ps
              | None \<Rightarrow> base_props_of_paths w rest))
      else base_props_of_paths w rest)"

definition possiblePaths :: "Generator \<Rightarrow> path list" where
  "possiblePaths g =
     [componentsPath g @ [''core'', ''base.ts''],
      componentsPath g @ [''core'', ''base.tsx''],
      componentsPath g @ [''common'', ''base.ts''],
      componentsPath g @ [''common'', ''base.tsx'']]"

text \<open>The old format first: \<^verbatim>\<open>core/base.component.js.map\<close>.\<close>

definition base_props_of_map :: "World \<Rightarrow> Generator \<Rightarrow> GenState \<Rightarrow> PropInfo list option \<times> GenState" where
  "base_props_of_map w g st =
     (let baseComponentPath = componentsPath g @ [''core'', ''base.component.js.map'']
      in if existsSync (fs_root w) baseComponentPath then
           (case extractSourceContent w baseComponentPath 0 st of
              (baseSource, st1) \<Rightarrow>
                (case truthy baseSource of
                   Some text \<Rightarrow> (base_props_of_source w text, st1)
                 | None \<Rightarrow> (None, st1)))
         else (None, st))"

definition getBaseProps :: "World \<Rightarrow> Generator \<Rightarrow> GenState \<Rightarrow> PropInfo list \<times> GenState" where
  "getBaseProps w g st =
     (case basePropsCache st of
        Some cached \<Rightarrow> (cached, st)
      | None \<Rightarrow>
          (case base_props_of_map w g st of
             (Some ps, st1) \<Rightarrow> (ps, st1 \<lparr> basePropsCache := Some ps \<rparr>)
           | (None, st1) \<Rightarrow>
               (case base_props_of_paths w (possiblePaths g) of
                  Some ps \<Rightarrow> (ps, st1 \<lparr> basePropsCache := Some ps \<rparr>)
                | None \<Rightarrow> ([], st1))))"

subsection \<open>searchForFile and findParentPropsFile\<close>

text \<open>
  \<open>searchForFile\<close> gets the node that the file system has at \<open>dir\<close>. Listing what is
  not a directory throws, and the \<^verbatim>\<open>catch\<close> gives \<^verbatim>\<open>null\<close>.
\<close>

fun searchForFile :: "FsNode \<Rightarrow> path \<Rightarrow> string \<Rightarrow> path option"
  and search_entries :: "(string \<times> FsNode) list \<Rightarrow> path \<Rightarrow> string \<Rightarrow> path option" where
  "searchForFile (Directory entries) dir targetFileName = search_entries entries dir targetFileName"
| "searchForFile (File content) dir targetFileName = None"
| "searchForFile Special dir targetFileName = None"
| "search_entries [] dir targetFileName = None"
| "search_entries ((entryName, Directory sub) # rest) dir targetFileName =
     (case searchForFile (Directory sub) (dir @ [entryName]) targetFileName of
        Some found \<Rightarrow> Some found
      | None \<Rightarrow> search_entries rest dir targetFileName)"
| "search_entries ((entryName, File content) # rest) dir targetFileName =
     (if entryName = targetFileName then Some (dir @ [entryName])
      else search_entries rest dir targetFileName)"
| "search_entries ((entryName, Special) # rest) dir targetFileName =
     search_entries rest dir targetFileName"

fun first_some :: "('a \<Rightarrow> 'b option) \<Rightarrow> 'a list \<Rightarrow> 'b option" where
  "first_some f [] = None"
| "first_some f (x # xs) = (case f x of Some y \<Rightarrow> Some y | None \<Rightarrow> first_some f xs)"

definition parent_candidates :: "string \<Rightarrow> string list" where
  "parent_candidates parentName =
     (let baseName = strip_suffix (strip_suffix parentName ''Props'') ''Component'';
          candidates = [toLowerCase baseName, toKebab baseName] @
            (if startsWith baseName ''Wm''
             then [toLowerCase (drop 2 baseName), toKebab (drop 2 baseName)]
             else [])
      in unique [] candidates)"

definition searchPaths :: "Generator \<Rightarrow> path list" where
  "searchPaths g = [componentsPath g @ [''components''], componentsPath g @ [''core'']]"

definition search_in :: "World \<Rightarrow> string \<Rightarrow> path \<Rightarrow> path option" where
  "search_in w propsFileName searchPath =
     (case fs_lookup (fs_root w) searchPath of
        None \<Rightarrow> None
      | Some n \<Rightarrow> searchForFile n searchPath propsFileName)"

definition findParentPropsFile :: "World \<Rightarrow> Generator \<Rightarrow> string \<Rightarrow> path option" where
  "findParentPropsFile w g parentName =
     first_some (\<lambda>fileName. first_some (search_in w (fileName @ ''.props.js.map'')) (searchPaths g))
       (parent_candidates parentName)"

subsection \<open>getInheritedProps\<close>

definition tag_inherited :: "string \<Rightarrow> PropInfo \<Rightarrow> PropInfo" where
  "tag_inherited ancestor prop = prop \<lparr> inherited := Some True, inheritedFrom := Some ancestor \<rparr>"

text \<open>
  The recursion up the ancestor chain has no bound in the source: what ends it on a chain
  that never ends is the call stack. The first argument is the number of nested calls
  that the stack still has room for. With no room the call throws a \<^verbatim>\<open>RangeError\<close>
  before it does anything: that is the result \<open>None\<close>. The recursive call stands in
  the \<^verbatim>\<open>try\<close> block, so the \<^verbatim>\<open>catch\<close> of the caller gets the error: it writes it to
  the console and the caller returns what it had pushed, the properties of its own
  artifact. Nothing else in the \<^verbatim>\<open>try\<close> block throws: the callees catch their own
  errors. (A frame either has room for all of its work or cannot be entered; the stack
  is not followed into the callees that do not recurse.)
\<close>

primrec getInheritedProps ::
  "nat \<Rightarrow> World \<Rightarrow> Generator \<Rightarrow> string \<Rightarrow> GenState \<Rightarrow> (PropInfo list \<times> GenState) option" where
  "getInheritedProps 0 w g baseClassName st = None"
| "getInheritedProps (Suc n) w g baseClassName st =
     (if baseClassName = ''BaseProps'' then
        (case getBaseProps w g st of
           (ps, st1) \<Rightarrow> Some (map (tag_inherited ''BaseProps'') ps, st1))
      else
        (let parentPropsPath = findParentPropsFile w g baseClassName;
             st1 = emit (DebugResolvingParent baseClassName parentPropsPath) st
         in case parentPropsPath of
              None \<Rightarrow> Some ([], emit (WarnNoParentPropsFile baseClassName) st1)
            | Some propsPath \<Rightarrow>
                (case extractSourceContent w propsPath 0 st1 of
                   (source, st2) \<Rightarrow>
                     (case truthy source of
                        None \<Rightarrow> Some ([], st2)
                      | Some text \<Rightarrow>
                          (case extractProps (createSourceFile w) text of
                             None \<Rightarrow> Some ([], st2)
                           | Some propsInfo \<Rightarrow>
                               (let st3 = emit (DebugExtractedProps (length (r_props propsInfo))
                                                  baseClassName (r_baseClass propsInfo)) st2;
                                    own = map (tag_inherited baseClassName) (r_props propsInfo)
                                in case truthy (r_baseClass propsInfo) of
                                     None \<Rightarrow> Some (own, st3)
                                   | Some grandparent \<Rightarrow>
                                       (case getInheritedProps n w g grandparent st3 of
                                          None \<Rightarrow> Some (own, emit (ErrorExtracting baseClassName) st3)
                                        | Some (further, st4) \<Rightarrow> Some (own @ further, st4))))))))"

subsection \<open>The events of a component\<close>

text \<open>
  \<^verbatim>\<open>eventType.match(/\((.*?)\)\s*=>/)\<close>: the leftmost opening parenthesis from which
  the pattern matches, and the shortest group after it. \<open>closes_arrow\<close> is the tail
  \<^verbatim>\<open>\)\s*=>\<close>.
\<close>

fun closes_arrow :: "string \<Rightarrow> bool" where
  "closes_arrow [] = False"
| "closes_arrow (c # cs) = (c = CHR '')'' \<and> startsWith (dropWhile is_space cs) ''=>'')"

fun lazy_group :: "string \<Rightarrow> string option" where
  "lazy_group [] = None"
| "lazy_group (c # cs) =
     (if closes_arrow (c # cs) then Some []
      else if is_line_terminator c then None
      else map_option ((#) c) (lazy_group cs))"

fun match_parameters :: "string \<Rightarrow> string option" where
  "match_parameters [] = None"
| "match_parameters (c # cs) =
     (if c = CHR ''('' then
        (case lazy_group cs of Some grp \<Rightarrow> Some grp | None \<Rightarrow> match_parameters cs)
      else match_parameters cs)"

definition extractEventParameters :: "string \<Rightarrow> string" where
  "extractEventParameters eventType =
     (if eventType = ''Function'' then ''()''
      else (case match_parameters eventType of
              Some grp \<Rightarrow> ''('' @ grp @ '')''
            | None \<Rightarrow> eventType))"

definition props_events :: "PropInfo list \<Rightarrow> EventInfo list" where
  "props_events allProps =
     map (\<lambda>e. \<lparr> ename = de_name e, etype = de_type e,
                 eparameters = Some (extractEventParameters (de_type e)),
                 edescription = None \<rparr>)
       (extractEvents allProps)"

definition callback_event :: "EventCallback \<Rightarrow> EventInfo" where
  "callback_event e =
     \<lparr> ename = cb_name e, etype = ''Function'', eparameters = Some (cb_parameters e),
       edescription = None \<rparr>"

text \<open>
  One match of
  \<^verbatim>\<open>/from\s+['"]@wavemaker\/app-rn-runtime\/((?:core|components)\/[^'"]+)['"]/\<close>
  at the start of a string: the group and the rest.
\<close>

definition core_or_components :: "string \<Rightarrow> (string \<times> string) option" where
  "core_or_components s =
     (case strip_prefix ''core/'' s of
        Some r \<Rightarrow> Some (''core/'', r)
      | None \<Rightarrow> map_option (Pair ''components/'') (strip_prefix ''components/'' s))"

definition match_import :: "string \<Rightarrow> (string \<times> string) option" where
  "match_import s = do {
     s1 \<leftarrow> strip_prefix ''from'' s;
     s2 \<leftarrow> (if dropWhile is_space s1 = s1 then None else Some (dropWhile is_space s1));
     s3 \<leftarrow> expect is_quote s2;
     s4 \<leftarrow> strip_prefix ''@wavemaker/app-rn-runtime/'' s3;
     (root, s5) \<leftarrow> core_or_components s4;
     s6 \<leftarrow> (if takeWhile (\<lambda>c. \<not> is_quote c) s5 = [] then None
            else expect is_quote (dropWhile (\<lambda>c. \<not> is_quote c) s5));
     Some (root @ takeWhile (\<lambda>c. \<not> is_quote c) s5, s6)
   }"

definition findReferencedComponents :: "Generator \<Rightarrow> string \<Rightarrow> path list" where
  "findReferencedComponents g jsContent =
     map (\<lambda>relativePath. path_join (componentsPath g) (relativePath @ ''.js''))
       (exec_all match_import 0 jsContent)"

text \<open>
  The events of one referenced component: \<^verbatim>\<open>callbackEvents.find\<close> looks in the list as
  it is at that moment, the events already pushed from this file included.
\<close>

definition add_referenced_events :: "EventCallback list \<Rightarrow> EventInfo list \<Rightarrow> EventInfo list" where
  "add_referenced_events refEvents callbackEvents =
     fold (\<lambda>e acc. if find (\<lambda>existing. ename existing = cb_name e) acc = None
                    then acc @ [callback_event e] else acc)
       refEvents callbackEvents"

text \<open>
  The loop over the referenced components. \<open>None\<close>: \<^verbatim>\<open>fs.readFileSync\<close> threw (the
  path exists and is not a regular file), which only the \<^verbatim>\<open>catch\<close> of
  \<^verbatim>\<open>generateComponentDoc\<close> handles.
\<close>

fun merge_referenced :: "World \<Rightarrow> path list \<Rightarrow> EventInfo list \<Rightarrow> EventInfo list option" where
  "merge_referenced w [] callbackEvents = Some callbackEvents"
| "merge_referenced w (refComponentPath # rest) callbackEvents =
     (if existsSync (fs_root w) refComponentPath then
        (case readFileSync (fs_root w) refComponentPath of
           None \<Rightarrow> None
         | Some refContent \<Rightarrow>
             merge_referenced w rest
               (add_referenced_events (extractEventCallbacks refContent) callbackEvents))
      else merge_referenced w rest callbackEvents)"

definition callback_events :: "World \<Rightarrow> Generator \<Rightarrow> path \<Rightarrow> string \<Rightarrow> EventInfo list option" where
  "callback_events w g compPath compName =
     (let jsFile = path_join compPath (compName @ ''.component.js'')
      in if existsSync (fs_root w) jsFile then
           (case readFileSync (fs_root w) jsFile of
              None \<Rightarrow> None
            | Some jsContent \<Rightarrow>
                merge_referenced w (findReferencedComponents g jsContent)
                  (map callback_event (extractEventCallbacks jsContent)))
         else Some [])"

text \<open>
  A JavaScript \<^verbatim>\<open>Map\<close> with string keys, as the list of its entries in insertion
  order: \<^verbatim>\<open>set\<close> on a key that is present keeps its place and replaces its value.
\<close>

fun map_set :: "string \<Rightarrow> 'v \<Rightarrow> (string \<times> 'v) list \<Rightarrow> (string \<times> 'v) list" where
  "map_set k v [] = [(k, v)]"
| "map_set k v ((k', v') # m) = (if k' = k then (k, v) # m else (k', v') # map_set k v m)"

definition merge_events :: "EventInfo list \<Rightarrow> EventInfo list \<Rightarrow> EventInfo list" where
  "merge_events propsEvents callbackEvents =
     (let eventMap0 = fold (\<lambda>e m. map_set (ename e) e m) propsEvents [];
          eventMap = fold (\<lambda>e m. map_set (ename e) e m) callbackEvents eventMap0
      in map snd eventMap)"

subsection \<open>The other parts of generateComponentDoc\<close>

text \<open>
  Properties: the component's own, then the inherited ones. The first argument is
  \<^verbatim>\<open>this.getInheritedProps\<close> with the room that the stack has left for it;
  \<open>None\<close> is its \<^verbatim>\<open>RangeError\<close>, which nothing here catches.
\<close>

definition parse_props ::
  "(string \<Rightarrow> GenState \<Rightarrow> (PropInfo list \<times> GenState) option) \<Rightarrow> World \<Rightarrow> Sources \<Rightarrow> GenState \<Rightarrow>
     ((PropInfo list \<times> string option) \<times> GenState) option" where
  "parse_props inheritedProps w sources st =
     (case truthy (src_props sources) of
        None \<Rightarrow> Some (([], None), st)
      | Some text \<Rightarrow>
          (case extractProps (createSourceFile w) text of
             None \<Rightarrow> Some (([], None), st)
           | Some propsInfo \<Rightarrow>
               (case truthy (r_baseClass propsInfo) of
                  None \<Rightarrow> Some ((r_props propsInfo, r_baseClass propsInfo), st)
                | Some base \<Rightarrow>
                    (case inheritedProps base st of
                       None \<Rightarrow> None
                     | Some (inh, st1) \<Rightarrow>
                         Some ((r_props propsInfo @ inh, r_baseClass propsInfo), st1)))))"

definition parse_methods :: "World \<Rightarrow> Sources \<Rightarrow> MethodInfo list" where
  "parse_methods w sources =
     (case truthy (src_component sources) of
        None \<Rightarrow> []
      | Some text \<Rightarrow>
          (case extractMethods (createSourceFile w) text of
             None \<Rightarrow> []
           | Some methodsInfo \<Rightarrow> r_methods methodsInfo))"

definition parse_styles :: "World \<Rightarrow> Sources \<Rightarrow> StyleInfo list" where
  "parse_styles w sources =
     (case truthy (src_styles sources) of
        None \<Rightarrow> []
      | Some text \<Rightarrow>
          (case extractStyleClasses (createSourceFile w) text of
             None \<Rightarrow> []
           | Some styleInfo \<Rightarrow>
               \<lparr> className = r_defaultClass styleInfo, sdescription = Some ''Default style class'' \<rparr>
               # map (\<lambda>cls. \<lparr> className = cls, sdescription = None \<rparr>)
                   (filter (\<lambda>cls. cls \<noteq> r_defaultClass styleInfo) (r_styleClasses styleInfo))))"

text \<open>
  The loop over the configured children. The first argument is the recursive call of
  \<^verbatim>\<open>generateComponentDoc\<close> with the room that the stack has left for it. When that call
  throws (no room), the error leaves the loop: the result is \<open>None\<close> with the state
  at that moment, and the \<^verbatim>\<open>catch\<close> of the enclosing \<^verbatim>\<open>generateComponentDoc\<close> gets it.
\<close>

fun children_loop ::
  "(path \<Rightarrow> string \<Rightarrow> GenState \<Rightarrow> (ComponentDoc option \<times> GenState) option) \<Rightarrow> World \<Rightarrow>
     path \<Rightarrow> string \<Rightarrow> string \<Rightarrow> (string \<times> string) list \<Rightarrow> GenState \<Rightarrow>
     ComponentDoc list option \<times> GenState" where
  "children_loop gen w compPath compName cat [] st = (Some [], st)"
| "children_loop gen w compPath compName cat ((childName, relativePath) # rest) st =
     (let childPath = path_resolve compPath relativePath
      in if existsSync (fs_root w) childPath then
           (case gen childPath cat st of
              None \<Rightarrow> (None, st)
            | Some (childDoc, st1) \<Rightarrow>
                (case children_loop gen w compPath compName cat rest st1 of
                   (None, st2) \<Rightarrow> (None, st2)
                 | (Some docs, st2) \<Rightarrow>
                     (Some ((case childDoc of Some d \<Rightarrow> [d] | None \<Rightarrow> []) @ docs), st2)))
         else children_loop gen w compPath compName cat rest
                (emit (WarnChildPathNotFound childPath childName compName) st))"

text \<open>\<^verbatim>\<open>Object.entries(this.config.childComponents[componentName])\<close>, empty without an entry.\<close>

definition configured_children :: "Generator \<Rightarrow> string \<Rightarrow> (string \<times> string) list" where
  "configured_children g compName =
     (case childComponents (config g) compName of None \<Rightarrow> [] | Some childConfig \<Rightarrow> childConfig)"

subsection \<open>generateComponentDoc\<close>

text \<open>
  What \<^verbatim>\<open>generateComponentDoc\<close> does once the properties are known: events, styles,
  children, the record and its filtering. \<open>gen\<close> is the recursive call. An error
  thrown on the way (a compiled file that cannot be read, a child for which the stack
  has no room) ends in the \<^verbatim>\<open>catch\<close>: the result is \<^verbatim>\<open>null\<close>.
\<close>

definition assemble_doc ::
  "(path \<Rightarrow> string \<Rightarrow> GenState \<Rightarrow> (ComponentDoc option \<times> GenState) option) \<Rightarrow> World \<Rightarrow>
     Generator \<Rightarrow> path \<Rightarrow> string \<Rightarrow> Sources \<Rightarrow> PropInfo list \<Rightarrow> string option \<Rightarrow> GenState \<Rightarrow>
     (ComponentDoc option \<times> GenState) option" where
  "assemble_doc gen w g compPath cat sources allProps baseCls st =
     (case callback_events w g compPath (basename compPath) of
        None \<Rightarrow> Some (None, emit (ErrorGeneratingDocs compPath) st)
      | Some callbackEvents \<Rightarrow>
          (case children_loop gen w compPath (basename compPath) cat
                  (configured_children g (basename compPath)) st of
             (None, st1) \<Rightarrow> Some (None, emit (ErrorGeneratingDocs compPath) st1)
           | (Some childData, st1) \<Rightarrow>
               Some (Some (filterComponentDoc (config g)
                       (ComponentDoc (basename compPath) compPath cat
                          allProps
                          (parse_methods w sources)
                          (merge_events (props_events allProps) callbackEvents)
                          (parse_styles w sources)
                          baseCls
                          (if childData \<noteq> [] then Some childData else None)
                          None)), st1)))"

text \<open>
  The first argument is the room on the call stack, as for \<open>getInheritedProps\<close>: the
  result \<open>None\<close> is the \<^verbatim>\<open>RangeError\<close> of a call for which there is no room. A
  call that is entered returns \<open>Some (doc, st)\<close>, where \<open>doc = None\<close> is the
  \<^verbatim>\<open>null\<close> of the early return and of the \<^verbatim>\<open>catch\<close>; the whole body stands in the
  \<^verbatim>\<open>try\<close> block.
\<close>

primrec generateComponentDoc ::
  "nat \<Rightarrow> World \<Rightarrow> Generator \<Rightarrow> path \<Rightarrow> string \<Rightarrow> GenState \<Rightarrow> (ComponentDoc option \<times> GenState) option" where
  "generateComponentDoc 0 w g compPath cat st = None"
| "generateComponentDoc (Suc n) w g compPath cat st =
     (case extractComponentSources w compPath st of
        None \<Rightarrow> Some (None, emit (ErrorGeneratingDocs compPath) st)
      | Some (sources, st1) \<Rightarrow>
          if truthy (src_props sources) = None \<and> truthy (src_component sources) = None
          then Some (None, emit (WarnNoSourceFiles compPath) st1)
          else
            (case parse_props (getInheritedProps n w g) w sources st1 of
               None \<Rightarrow> Some (None, emit (ErrorGeneratingDocs compPath) st1)
             | Some ((allProps, baseCls), st2) \<Rightarrow>
                 assemble_doc (generateComponentDoc n w g) w g compPath cat sources allProps baseCls st2))"

definition initial_state :: GenState where
  "initial_state = \<lparr> basePropsCache = None, console = [] \<rparr>"

section \<open>A sample library\<close>

text \<open>
  A small component library in the compiled-artifact form, for the concrete instances
  below. A source map \<^verbatim>\<open>map:x\<close> embeds the source text \<^verbatim>\<open>src:x\<close>, and the
  parser gives each source text its tree:
  \<^item> \<^verbatim>\<open>core/base.component.js.map\<close>: class \<^verbatim>\<open>BaseProps\<close> with \<^verbatim>\<open>id\<close> and \<^verbatim>\<open>name\<close>;
  \<^item> \<^verbatim>\<open>components/input/baseinput\<close>: class \<^verbatim>\<open>BaseInputProps extends BaseProps\<close>;
  \<^item> \<^verbatim>\<open>components/basic/button\<close>: class \<^verbatim>\<open>WmButtonProps extends BaseInputProps\<close>
    declaring \<^verbatim>\<open>onTap\<close> and \<^verbatim>\<open>onFocus\<close>, a component class, a style file, and a
    compiled \<^verbatim>\<open>button.component.js\<close> that emits \<^verbatim>\<open>onFocus\<close> and imports
    \<^verbatim>\<open>core/tap\<close>, which emits \<^verbatim>\<open>onTap\<close> and \<^verbatim>\<open>onLongTap\<close>;
  \<^item> \<^verbatim>\<open>components/basic/orphan\<close>: class \<^verbatim>\<open>OrphanProps extends MissingParentProps\<close>,
    an ancestor that no file of the library declares;
  \<^item> \<^verbatim>\<open>components/basic/empty\<close>: a directory without sources;
  \<^item> \<^verbatim>\<open>components/basic/widget\<close>: class \<^verbatim>\<open>WmWidgetProps extends WidgetProps\<close>. The
    search by name takes \<^verbatim>\<open>WidgetProps\<close> to \<^verbatim>\<open>widget.props.js.map\<close>, this very
    file: the chain of \<^verbatim>\<open>WidgetProps\<close> never ends;
  \<^item> \<^verbatim>\<open>components/basic/chip\<close>: a component in the direct-source form. Its
    \<^verbatim>\<open>index.tsx\<close> (\<open>sample_chip_text\<close>, cut down to the two places that matter)
    declares the property \<^verbatim>\<open>onTap\<close> in the interface \<^verbatim>\<open>WmChipProps\<close> and emits
    \<^verbatim>\<open>onTap\<close> at a call site; the directory has no compiled \<^verbatim>\<open>chip.component.js\<close>.
\<close>

definition sample_base_ast :: Node where
  "sample_base_ast =
     Node OtherNode
       [Node (ClassDeclaration (Some ''BaseProps'') []
                [PropertyDeclaration ''id'' True (Some ''string'') (Some ''null as any''),
                 PropertyDeclaration ''name'' True (Some ''string'') None]) []]"

definition sample_baseinput_ast :: Node where
  "sample_baseinput_ast =
     Node OtherNode
       [Node (ClassDeclaration (Some ''BaseInputProps'') [HeritageClause ExtendsKeyword ''BaseProps'']
                [PropertyDeclaration ''datavalue'' False (Some ''any'') None]) []]"

definition sample_button_props_ast :: Node where
  "sample_button_props_ast =
     Node OtherNode
       [Node (ClassDeclaration (Some ''WmButtonProps'') [HeritageClause ExtendsKeyword ''BaseInputProps'']
                [PropertyDeclaration ''caption'' False (Some ''string'') (Some ''null as any''),
                 PropertyDeclaration ''onTap'' True (Some ''Function'') None,
                 PropertyDeclaration ''onFocus'' True (Some ''(e: Event) => void'') None]) []]"

definition sample_button_component_ast :: Node where
  "sample_button_component_ast =
     Node OtherNode
       [Node (ClassDeclaration (Some ''WmButton'') [HeritageClause ExtendsKeyword ''BaseComponent'']
                [MethodDeclaration ''focus'' [] None [],
                 MethodDeclaration ''renderWidget'' [] None
                   [Parameter (Identifier ''props'') False (Some ''WmButtonProps'')],
                 MethodDeclaration ''reset'' [PrivateKeyword] (Some ''void'') []]) []]"

definition sample_button_styles_ast :: Node where
  "sample_button_styles_ast =
     Node OtherNode
       [Node (VariableStatement
                [VariableDeclaration (Some ''DEFAULT_CLASS'') (Some (StringLiteral ''app-button''))]) [],
        Node OtherNode
          [Node (CallExpression (PropertyAccessCallee ''addStyle'')
                   [BinaryExpression (''DEFAULT_CLASS + '-disabled'' @ [CHR 0x27]), OtherExpression]) []]]"

definition sample_orphan_ast :: Node where
  "sample_orphan_ast =
     Node OtherNode
       [Node (ClassDeclaration (Some ''OrphanProps'') [HeritageClause ExtendsKeyword ''MissingParentProps'']
                [PropertyDeclaration ''label'' False (Some ''string'') None]) []]"

definition sample_widget_ast :: Node where
  "sample_widget_ast =
     Node OtherNode
       [Node (ClassDeclaration (Some ''WmWidgetProps'') [HeritageClause ExtendsKeyword ''WidgetProps'']
                [PropertyDeclaration ''w'' False (Some ''string'') None]) []]"

definition sample_chip_text :: string where
  "sample_chip_text = ''onTap: (e: Event) => void; invokeEventCallback('onTap', [e, target])''"

definition sample_chip_ast :: Node where
  "sample_chip_ast =
     Node OtherNode
       [Node (InterfaceDeclaration ''WmChipProps'' []
                [PropertySignature ''onTap'' True (Some ''(e: Event) => void'')]) []]"

definition sample_createSourceFile :: "string \<Rightarrow> Node" where
  "sample_createSourceFile sourceCode =
     (if sourceCode = ''src:base'' then sample_base_ast
      else if sourceCode = ''src:baseinput'' then sample_baseinput_ast
      else if sourceCode = ''src:button.props'' then sample_button_props_ast
      else if sourceCode = ''src:button.component'' then sample_button_component_ast
      else if sourceCode = ''src:button.styles'' then sample_button_styles_ast
      else if sourceCode = ''src:orphan'' then sample_orphan_ast
      else if sourceCode = ''src:widget'' then sample_widget_ast
      else if sourceCode = sample_chip_text then sample_chip_ast
      else Node OtherNode [])"

definition sample_jsonParse :: "string \<Rightarrow> ParsedJson" where
  "sample_jsonParse content =
     (case strip_prefix ''map:'' content of
        Some x \<Rightarrow> SourceMapContent (Some [''src:'' @ x])
      | None \<Rightarrow> JsonSyntaxError)"

definition sample_fs :: FsNode where
  "sample_fs =
     Directory
       [(''lib'', Directory
          [(''core'', Directory
             [(''base.component.js.map'', File ''map:base''),
              (''tap.js'', File ''invokeEventCallback('onTap', [e, target]); invokeEventCallback('onLongTap', [e])'')]),
           (''components'', Directory
             [(''input'', Directory
                [(''baseinput'', Directory
                   [(''baseinput.props.js.map'', File ''map:baseinput'')])]),
              (''basic'', Directory
                [(''button'', Directory
                   [(''button.props.js.map'', File ''map:button.props''),
                    (''button.component.js.map'', File ''map:button.component''),
                    (''button.styles.js.map'', File ''map:button.styles''),
                    (''button.component.js'',
                       File ''from '@wavemaker/app-rn-runtime/core/tap'; invokeEventCallback('onFocus', [e, target])'')]),
                 (''orphan'', Directory
                   [(''orphan.props.js.map'', File ''map:orphan'')]),
                 (''empty'', Directory
                   [(''README.md'', File ''notes'')]),
                 (''widget'', Directory
                   [(''widget.props.js.map'', File ''map:widget'')]),
                 (''chip'', Directory
                   [(''index.tsx'', File sample_chip_text)])])])])]"

definition sample_world :: World where
  "sample_world =
     \<lparr> fs_root = sample_fs, createSourceFile = sample_createSourceFile, jsonParse = sample_jsonParse \<rparr>"

text \<open>The filtering lists of \<^verbatim>\<open>DEFAULT_CONFIG\<close>, and no configured children.\<close>

definition sample_config :: GeneratorConfig where
  "sample_config =
     \<lparr> childComponents = Map.empty,
       documentation =
         \<lparr> excludeProps = [],
           excludeInheritedProps = [''listener'', ''showskeletonchildren'', ''deferload'', ''isdefault'',
             ''key'', ''id'', ''name'', ''children''],
           excludeMethods = [''renderWidget'', ''renderSkeleton'', ''prepareIcon'', ''prepareBadge'',
             ''updateState'', ''componentDidMount'', ''componentWillUnmount'', ''componentDidUpdate''],
           excludeStyleClasses = [],
           componentOverrides = Map.empty \<rparr> \<rparr>"

definition sample_generator :: Generator where
  "sample_generator = \<lparr> componentsPath = [''lib''], config = sample_config \<rparr>"

definition sample_button_path :: path where
  "sample_button_path = [''lib'', ''components'', ''basic'', ''button'']"

definition sample_orphan_path :: path where
  "sample_orphan_path = [''lib'', ''components'', ''basic'', ''orphan'']"

definition sample_empty_path :: path where
  "sample_empty_path = [''lib'', ''components'', ''basic'', ''empty'']"

definition sample_widget_path :: path where
  "sample_widget_path = [''lib'', ''components'', ''basic'', ''widget'']"

definition sample_chip_path :: path where
  "sample_chip_path = [''lib'', ''components'', ''basic'', ''chip'']"

section \<open>Concrete inputs for the properties of filtering\<close>

text \<open>
  An own property named \<^verbatim>\<open>id\<close>, a name that the inherited-property exclude-list of
  \<^verbatim>\<open>DEFAULT_CONFIG\<close> holds.
\<close>

definition c3_prop :: PropInfo where
  "c3_prop = \<lparr> pname = ''id'', ptype = ''string'', defaultValue = None, optional = False,
               pdescription = None, inherited = Some False, inheritedFrom = None \<rparr>"

definition c3_doc :: ComponentDoc where
  "c3_doc = ComponentDoc ''card'' [''lib'', ''components'', ''basic'', ''card''] ''basic''
              [c3_prop] [] [] [] None None None"

text \<open>A configuration with every kind of exclude-list, and a raw record for it.\<close>

definition c3w_config :: GeneratorConfig where
  "c3w_config =
     \<lparr> childComponents = Map.empty,
       documentation =
         \<lparr> excludeProps = [''debug''],
           excludeInheritedProps = [''id''],
           excludeMethods = [''renderWidget''],
           excludeStyleClasses = [''app-card-internal''],
           componentOverrides =
             [''card'' \<mapsto> \<lparr> ov_excludeProps = Some [''secret''], ov_excludeMethods = None,
                              ov_excludeStyleClasses = Some [''app-card-old''] \<rparr>] \<rparr> \<rparr>"

definition c3w_own :: "string \<Rightarrow> PropInfo" where
  "c3w_own n = \<lparr> pname = n, ptype = ''string'', defaultValue = None, optional = False,
                 pdescription = None, inherited = Some False, inheritedFrom = None \<rparr>"

definition c3w_inherited :: "string \<Rightarrow> PropInfo" where
  "c3w_inherited n = \<lparr> pname = n, ptype = ''string'', defaultValue = None, optional = False,
                       pdescription = None, inherited = Some True, inheritedFrom = Some ''BaseProps'' \<rparr>"

definition c3w_method :: "string \<Rightarrow> MethodInfo" where
  "c3w_method n = \<lparr> mname = n, visibility = Public, returnType = ''void'', parameters = [],
                    mdescription = None \<rparr>"

definition c3w_style :: "string \<Rightarrow> StyleInfo" where
  "c3w_style n = \<lparr> className = n, sdescription = None \<rparr>"

definition c3w_doc :: ComponentDoc where
  "c3w_doc = ComponentDoc ''card'' [''lib'', ''components'', ''basic'', ''card''] ''basic''
     [c3w_own ''caption'', c3w_own ''id'', c3w_own ''debug'', c3w_own ''secret'',
      c3w_inherited ''id'', c3w_inherited ''show'']
     [c3w_method ''focus'', c3w_method ''renderWidget'']
     []
     [c3w_style ''app-card'', c3w_style ''app-card-internal'', c3w_style ''app-card-old'']
     None None None"

section \<open>Definitions for stating the properties\<close>

text \<open>
  The declarations of a tree that properties extraction recognises, in document order
  (the node before its children, the children from first to last), each with what the
  visitor would assign for it.
\<close>

fun props_declarations :: "Node \<Rightarrow> PropsResult list" where
  "props_declarations (Node k cs) =
     (case props_of_declaration k of Some r \<Rightarrow> [r] | None \<Rightarrow> []) @
     concat (map props_declarations cs)"

text \<open>The last element of a list, if any; and the same with a value for the empty list.\<close>

definition last_option :: "'a list \<Rightarrow> 'a option" where
  "last_option xs = (if xs = [] then None else Some (last xs))"

definition later :: "'a option \<Rightarrow> 'a list \<Rightarrow> 'a option" where
  "later r xs = (if xs = [] then r else Some (last xs))"

text \<open>
  The \<^verbatim>\<open>Map\<close> after the events of a list are set in order, and the invariant that
  every entry is stored under its own name.
\<close>

definition event_map :: "EventInfo list \<Rightarrow> (string \<times> EventInfo) list \<Rightarrow> (string \<times> EventInfo) list" where
  "event_map es m = fold (\<lambda>e m. map_set (ename e) e m) es m"

definition keyed :: "(string \<times> EventInfo) list \<Rightarrow> bool" where
  "keyed m = (\<forall>(k, v) \<in> set m. k = ename v)"

section \<open>The events of a component, for stating the properties\<close>

text \<open>
  The events that the component's own compiled file emits, as
  \<^verbatim>\<open>generateComponentDoc\<close> pushes them before it looks at the referenced components
  (empty when there is no such file); the events declared by the properties of a source;
  the events of a generated record; the parameter signature of the entry with a name.
\<close>

definition own_emitted :: "World \<Rightarrow> path \<Rightarrow> EventInfo list" where
  "own_emitted w compPath =
     (case readFileSync (fs_root w) (path_join compPath (basename compPath @ ''.component.js'')) of
        Some jsContent \<Rightarrow> map callback_event (extractEventCallbacks jsContent)
      | None \<Rightarrow> [])"

definition declared_events :: "World \<Rightarrow> string \<Rightarrow> EventInfo list" where
  "declared_events w propsSource =
     props_events (case extractProps (createSourceFile w) propsSource of
                     Some r \<Rightarrow> r_props r | None \<Rightarrow> [])"

definition doc_events :: "(ComponentDoc option \<times> GenState) option \<Rightarrow> EventInfo list" where
  "doc_events r = (case r of Some (Some d, st) \<Rightarrow> events d | _ \<Rightarrow> [])"

definition event_signature :: "string \<Rightarrow> EventInfo list \<Rightarrow> string option" where
  "event_signature n es =
     (case find (\<lambda>e. ename e = n) es of Some e \<Rightarrow> eparameters e | None \<Rightarrow> None)"

text \<open>What the generator returns for the button of the sample library, and the state after it.\<close>

definition sample_base_props :: "PropInfo list" where
  "sample_base_props =
     [\<lparr> pname = ''id'', ptype = ''string'', defaultValue = Some ''null'', optional = True,
        pdescription = None, inherited = Some False, inheritedFrom = None \<rparr>,
      \<lparr> pname = ''name'', ptype = ''string'', defaultValue = None, optional = True,
        pdescription = None, inherited = Some False, inheritedFrom = None \<rparr>]"

definition sample_button_doc :: ComponentDoc where
  "sample_button_doc =
     ComponentDoc ''button'' [''lib'', ''components'', ''basic'', ''button''] ''basic''
       [\<lparr> pname = ''caption'', ptype = ''string'', defaultValue = Some ''null'', optional = False,
          pdescription = None, inherited = Some False, inheritedFrom = None \<rparr>,
        \<lparr> pname = ''onTap'', ptype = ''Function'', defaultValue = None, optional = True,
          pdescription = None, inherited = Some False, inheritedFrom = None \<rparr>,
        \<lparr> pname = ''onFocus'', ptype = ''(e: Event) => void'', defaultValue = None, optional = True,
          pdescription = None, inherited = Some False, inheritedFrom = None \<rparr>,
        \<lparr> pname = ''datavalue'', ptype = ''any'', defaultValue = None, optional = False,
          pdescription = None, inherited = Some True, inheritedFrom = Some ''BaseInputProps'' \<rparr>]
       [\<lparr> mname = ''focus'', visibility = Public, returnType = ''void'', parameters = [],
          mdescription = None \<rparr>]
       [\<lparr> ename = ''onTap'', etype = ''Function'', eparameters = Some ''(e)'', edescription = None \<rparr>,
        \<lparr> ename = ''onFocus'', etype = ''Function'', eparameters = Some ''(e)'', edescription = None \<rparr>,
        \<lparr> ename = ''onLongTap'', etype = ''Function'', eparameters = Some ''(e)'', edescription = None \<rparr>]
       [\<lparr> className = ''app-button'', sdescription = Some ''Default style class'' \<rparr>,
        \<lparr> className = ''app-button-disabled'', sdescription = None \<rparr>]
       (Some ''BaseInputProps'') None None"

definition sample_button_state :: GenState where
  "sample_button_state =
     \<lparr> basePropsCache = Some sample_base_props,
       console =
         [DebugResolvingParent ''BaseInputProps''
            (Some [''lib'', ''components'', ''input'', ''baseinput'', ''baseinput.props.js.map'']),
          DebugExtractedProps 1 ''BaseInputProps'' (Some ''BaseProps'')] \<rparr>"

section \<open>Concrete declarations\<close>

text \<open>
  A Props class whose initializer is a cast to a type other than \<^verbatim>\<open>any\<close>; a Props
  class with a cast to \<^verbatim>\<open>any\<close>, a plain initializer and a member without one.
\<close>

definition c2_class :: NodeKind where
  "c2_class = ClassDeclaration (Some ''CounterProps'') []
                [PropertyDeclaration ''count'' False (Some ''number'') (Some ''1 as number'')]"

definition c2w_class :: NodeKind where
  "c2w_class = ClassDeclaration (Some ''WmLabelProps'') [HeritageClause ExtendsKeyword ''BaseProps'']
                 [PropertyDeclaration ''caption'' False (Some ''string'') (Some ''null as any''),
                  PropertyDeclaration ''limit'' False (Some ''number'') (Some ''42''),
                  PropertyDeclaration ''onTap'' True (Some ''Function'') None]"

text \<open>
  A tree with three Props declarations: an interface, a type alias nested in another
  class, and a class that comes last.
\<close>

definition c10_first :: NodeKind where
  "c10_first = InterfaceDeclaration ''FirstProps'' [HeritageClause ExtendsKeyword ''BaseProps'']
                 [PropertySignature ''a'' False (Some ''string'')]"

definition c10_inner :: NodeKind where
  "c10_inner = TypeAliasDeclaration ''InnerProps'' (TypeLiteral [PropertySignature ''b'' True None])"

definition c10_last :: NodeKind where
  "c10_last = ClassDeclaration (Some ''LastProps'') [HeritageClause ExtendsKeyword ''FirstProps'']
                [PropertyDeclaration ''c'' False (Some ''number'') (Some ''1'')]"

definition c10_ast :: Node where
  "c10_ast =
     Node OtherNode
       [Node c10_first [],
        Node (ClassDeclaration (Some ''Widget'') [] []) [Node OtherNode [Node c10_inner []]],
        Node c10_last [Node (TypeAliasDeclaration ''Alias'' OtherType) []]]"

definition c10_createSourceFile :: "string \<Rightarrow> Node" where
  "c10_createSourceFile sourceCode = c10_ast"

definition c10_first_result :: PropsResult where
  "c10_first_result =
     \<lparr> r_props = [\<lparr> pname = ''a'', ptype = ''string'', defaultValue = None, optional = False,
                     pdescription = None, inherited = Some False, inheritedFrom = None \<rparr>],
       r_className = ''FirstProps'', r_baseClass = Some ''BaseProps'' \<rparr>"

definition c10_inner_result :: PropsResult where
  "c10_inner_result =
     \<lparr> r_props = [\<lparr> pname = ''b'', ptype = ''any'', defaultValue = None, optional = True,
                     pdescription = None, inherited = Some False, inheritedFrom = None \<rparr>],
       r_className = ''InnerProps'', r_baseClass = None \<rparr>"

definition c10_last_result :: PropsResult where
  "c10_last_result =
     \<lparr> r_props = [\<lparr> pname = ''c'', ptype = ''number'', defaultValue = Some ''1'', optional = False,
                     pdescription = None, inherited = Some False, inheritedFrom = None \<rparr>],
       r_className = ''LastProps'', r_baseClass = Some ''FirstProps'' \<rparr>"

section \<open>The files of a directory tree\<close>

text \<open>
  The names of the regular files anywhere under a node, and under the node that the
  file system has at a path (none when the path does not exist).
\<close>

fun file_names :: "FsNode \<Rightarrow> string set"
  and entries_file_names :: "(string \<times> FsNode) list \<Rightarrow> string set" where
  "file_names (Directory entries) = entries_file_names entries"
| "file_names (File content) = {}"
| "file_names Special = {}"
| "entries_file_names [] = {}"
| "entries_file_names ((entryName, Directory sub) # rest) =
     file_names (Directory sub) \<union> entries_file_names rest"
| "entries_file_names ((entryName, File content) # rest) =
     insert entryName (entries_file_names rest)"
| "entries_file_names ((entryName, Special) # rest) = entries_file_names rest"

definition files_under :: "World \<Rightarrow> path \<Rightarrow> string set" where
  "files_under w searchPath =
     (case fs_lookup (fs_root w) searchPath of Some n \<Rightarrow> file_names n | None \<Rightarrow> {})"

text \<open>What the generator returns for the orphan of the sample library.\<close>

definition sample_orphan_props :: "PropInfo list" where
  "sample_orphan_props =
     [\<lparr> pname = ''label'', ptype = ''string'', defaultValue = None, optional = False,
        pdescription = None, inherited = Some False, inheritedFrom = None \<rparr>]"

definition sample_orphan_doc :: ComponentDoc where
  "sample_orphan_doc =
     ComponentDoc ''orphan'' [''lib'', ''components'', ''basic'', ''orphan''] ''basic''
       sample_orphan_props [] [] [] (Some ''MissingParentProps'') None None"

definition sample_orphan_state :: GenState where
  "sample_orphan_state =
     \<lparr> basePropsCache = None,
       console = [DebugResolvingParent ''MissingParentProps'' None,
                  WarnNoParentPropsFile ''MissingParentProps''] \<rparr>"

section \<open>Ancestor resolution, for stating the properties\<close>

text \<open>The list that a resolution returns (empty when the call throws).\<close>

definition resolved :: "(PropInfo list \<times> GenState) option \<Rightarrow> PropInfo list" where
  "resolved r = (case r of Some (ps, st) \<Rightarrow> ps | None \<Rightarrow> [])"

text \<open>What the resolution of \<^verbatim>\<open>BaseInputProps\<close> returns in the sample library.\<close>

definition sample_baseinput_inherited :: "PropInfo list" where
  "sample_baseinput_inherited =
     [\<lparr> pname = ''datavalue'', ptype = ''any'', defaultValue = None, optional = False,
        pdescription = None, inherited = Some True, inheritedFrom = Some ''BaseInputProps'' \<rparr>,
      \<lparr> pname = ''id'', ptype = ''string'', defaultValue = Some ''null'', optional = True,
        pdescription = None, inherited = Some True, inheritedFrom = Some ''BaseProps'' \<rparr>,
      \<lparr> pname = ''name'', ptype = ''string'', defaultValue = None, optional = True,
        pdescription = None, inherited = Some True, inheritedFrom = Some ''BaseProps'' \<rparr>]"

text \<open>What the file system holds as the root property set, whatever the cache holds.\<close>

definition base_lookup :: "World \<Rightarrow> Generator \<Rightarrow> PropInfo list option" where
  "base_lookup w g =
     (case fst (base_props_of_map w g initial_state) of
        Some ps \<Rightarrow> Some ps
      | None \<Rightarrow> base_props_of_paths w (possiblePaths g))"

text \<open>
  The root property set of a state: the cache when it is filled, the file system's
  otherwise.
\<close>

definition root_props :: "World \<Rightarrow> Generator \<Rightarrow> GenState \<Rightarrow> PropInfo list" where
  "root_props w g st =
     (case basePropsCache st of
        Some cached \<Rightarrow> cached
      | None \<Rightarrow> (case base_lookup w g of Some ps \<Rightarrow> ps | None \<Rightarrow> []))"

text \<open>
  A step of the run keeps the root property set, and keeps the cache once it is filled.
\<close>

definition keeps :: "World \<Rightarrow> Generator \<Rightarrow> GenState \<Rightarrow> GenState \<Rightarrow> bool" where
  "keeps w g st st' \<longleftrightarrow>
     root_props w g st' = root_props w g st \<and>
     (\<forall>c. basePropsCache st = Some c \<longrightarrow> basePropsCache st' = Some c)"

section \<open>Style extraction, for stating the properties\<close>

text \<open>
  The node kinds of a tree in document order; the kinds at which the style visitor can
  change its variables (a statement that declares \<^verbatim>\<open>DEFAULT_CLASS\<close>, a call of
  \<^verbatim>\<open>addStyle\<close>); and the two nodes and the expected result of the scenario: the
  constant \<^verbatim>\<open>DEFAULT_CLASS = "app-button"\<close> and the argument
  \<^verbatim>\<open>DEFAULT_CLASS + '-disabled'\<close>.
\<close>

fun preorder :: "Node \<Rightarrow> NodeKind list" where
  "preorder (Node k cs) = k # concat (map preorder cs)"

fun style_relevant :: "NodeKind \<Rightarrow> bool" where
  "style_relevant (VariableStatement decls) =
     list_ex (\<lambda>d. declared_identifier d = Some ''DEFAULT_CLASS'') decls"
| "style_relevant (CallExpression callee args) = isAddStyleCall callee"
| "style_relevant _ = False"

definition scenario_b_constant :: NodeKind where
  "scenario_b_constant =
     VariableStatement [VariableDeclaration (Some ''DEFAULT_CLASS'') (Some (StringLiteral ''app-button''))]"

definition scenario_b_argument :: Expression where
  "scenario_b_argument = BinaryExpression (''DEFAULT_CLASS + '-disabled'' @ [CHR 0x27])"

definition scenario_b_styles :: "StyleInfo list" where
  "scenario_b_styles =
     [\<lparr> className = ''app-button'', sdescription = Some ''Default style class'' \<rparr>,
      \<lparr> className = ''app-button-disabled'', sdescription = None \<rparr>]"

section \<open>The chain of ancestors, for stating the properties\<close>

text \<open>
  The source text that a source map holds, which no state of the run influences; and
  the declaration that the resolution of an ancestor other than the root extracts: the
  artifact found by name, its source text when it is not empty, the Props declaration
  in it.
\<close>

definition source_content :: "World \<Rightarrow> path \<Rightarrow> string option" where
  "source_content w mapFilePath = fst (extractSourceContent w mapFilePath 0 initial_state)"

definition resolve_artifact :: "World \<Rightarrow> Generator \<Rightarrow> string \<Rightarrow> PropsResult option" where
  "resolve_artifact w g ancestor =
     (case findParentPropsFile w g ancestor of
        None \<Rightarrow> None
      | Some propsPath \<Rightarrow>
          (case truthy (source_content w propsPath) of
             None \<Rightarrow> None
           | Some src \<Rightarrow> extractProps (createSourceFile w) src))"

text \<open>
  \<open>chain_within n\<close>: the chain of ancestors that starts at a name ends within
  \<open>n\<close> resolutions, at the root, at a name without artifact or declaration, or at
  a declaration without ancestor. On a cyclic chain it holds for no \<open>n\<close>.
\<close>

primrec chain_within :: "nat \<Rightarrow> World \<Rightarrow> Generator \<Rightarrow> string \<Rightarrow> bool" where
  "chain_within 0 w g ancestor = False"
| "chain_within (Suc n) w g ancestor =
     (if ancestor = ''BaseProps'' then True
      else (case resolve_artifact w g ancestor of
              None \<Rightarrow> True
            | Some propsInfo \<Rightarrow>
                (case truthy (r_baseClass propsInfo) of
                   None \<Rightarrow> True
                 | Some grandparent \<Rightarrow> chain_within n w g grandparent)))"

text \<open>
  The list that a resolution with room for \<open>n\<close> nested calls returns, as a function
  of the root property set: the tagged properties of each artifact of the chain, as far
  as the room goes.
\<close>

primrec chain_props :: "nat \<Rightarrow> World \<Rightarrow> Generator \<Rightarrow> PropInfo list \<Rightarrow> string \<Rightarrow> PropInfo list" where
  "chain_props 0 w g rootProps ancestor = []"
| "chain_props (Suc n) w g rootProps ancestor =
     (if ancestor = ''BaseProps'' then map (tag_inherited ''BaseProps'') rootProps
      else (case resolve_artifact w g ancestor of
              None \<Rightarrow> []
            | Some propsInfo \<Rightarrow>
                map (tag_inherited ancestor) (r_props propsInfo) @
                (case truthy (r_baseClass propsInfo) of
                   None \<Rightarrow> []
                 | Some grandparent \<Rightarrow> chain_props n w g rootProps grandparent)))"

text \<open>
  Two resolutions of the same ancestor, one after the other in the same run, with room
  on the stack for \<open>n\<close> and for \<open>m\<close> nested calls: the two lists.
\<close>

definition resolve_twice ::
  "nat \<Rightarrow> nat \<Rightarrow> World \<Rightarrow> Generator \<Rightarrow> string \<Rightarrow> GenState \<Rightarrow> (PropInfo list \<times> PropInfo list) option" where
  "resolve_twice n m w g ancestor st =
     (case getInheritedProps n w g ancestor st of
        None \<Rightarrow> None
      | Some (first, st1) \<Rightarrow>
          (case getInheritedProps m w g ancestor st1 of
             None \<Rightarrow> None
           | Some (second, st2) \<Rightarrow> Some (first, second)))"

text \<open>The descriptor that each resolution of \<^verbatim>\<open>WidgetProps\<close> adds in the sample library.\<close>

definition sample_widget_inherited :: PropInfo where
  "sample_widget_inherited =
     \<lparr> pname = ''w'', ptype = ''string'', defaultValue = None, optional = False,
       pdescription = None, inherited = Some True, inheritedFrom = Some ''WidgetProps'' \<rparr>"

section \<open>Properties of filtering\<close>

lemma filterComponentDoc_props:
  "props (filterComponentDoc cfg doc) =
     filter (keep_prop (documentation cfg) (componentName doc)) (props doc)"
  by (simp add: filterComponentDoc_def Let_def)

lemma filterComponentDoc_methods:
  "methods (filterComponentDoc cfg doc) =
     filter (keep_method (documentation cfg) (componentName doc)) (methods doc)"
  by (simp add: filterComponentDoc_def Let_def)

lemma filterComponentDoc_styles:
  "styles (filterComponentDoc cfg doc) =
     filter (keep_style (documentation cfg) (componentName doc)) (styles doc)"
  by (simp add: filterComponentDoc_def Let_def)

lemma filterComponentDoc_events:
  "events (filterComponentDoc cfg doc) = events doc"
  by (simp add: filterComponentDoc_def Let_def)

lemma keep_prop_iff:
  "keep_prop dc cname p \<longleftrightarrow>
     pname p \<notin> set (excludeProps dc) \<and>
     \<not> (inherited p = Some True \<and> pname p \<in> set (excludeInheritedProps dc)) \<and>
     \<not> override_includes (componentOverrides dc cname) ov_excludeProps (pname p)"
  by (simp add: keep_prop_def)

lemma keep_method_iff:
  "keep_method dc cname m \<longleftrightarrow>
     mname m \<notin> set (excludeMethods dc) \<and>
     \<not> override_includes (componentOverrides dc cname) ov_excludeMethods (mname m)"
  by (simp add: keep_method_def)

lemma keep_style_iff:
  "keep_style dc cname s \<longleftrightarrow>
     className s \<notin> set (excludeStyleClasses dc) \<and>
     \<not> override_includes (componentOverrides dc cname) ov_excludeStyleClasses (className s)"
  by (simp add: keep_style_def)

section \<open>The cast clean-up of an initializer\<close>

lemma startsWith_append_long:
  "length p \<le> length x \<Longrightarrow> startsWith (x @ y) p = startsWith x p"
  by (induction x p rule: startsWith.induct) auto

lemma startsWith_self_append: "startsWith (p @ y) p"
  by (induction p) auto

lemma endsWith_append_self: "endsWith (x @ p) p"
  by (simp add: endsWith_def startsWith_self_append)

lemma as_any_no_overlap:
  assumes "startsWith (x @ '' as any'') '' as any''" and "x \<noteq> []"
  shows "startsWith x '' as any''"
proof (cases "7 \<le> length x")
  case True
  then show ?thesis using assms(1) startsWith_append_long [of "'' as any''" x "'' as any''"] by simp
next
  case False
  then have "length x < 7" by simp
  then consider a where "x = [a]" | a b where "x = [a, b]" | a b c where "x = [a, b, c]"
    | a b c d where "x = [a, b, c, d]" | a b c d e where "x = [a, b, c, d, e]"
    | a b c d e f where "x = [a, b, c, d, e, f]"
    using assms(2)
    by (cases x; simp; rename_tac x1; case_tac x1; simp; rename_tac x2; case_tac x2; simp;
        rename_tac x3; case_tac x3; simp; rename_tac x4; case_tac x4; simp;
        rename_tac x5; case_tac x5; simp)
  then show ?thesis using assms(1) by cases auto
qed

lemma replace_first_as_any:
  "\<not> str_includes x '' as any'' \<Longrightarrow> replace_first (x @ '' as any'') '' as any'' [] = x"
proof (induction x)
  case Nil
  then show ?case by simp
next
  case (Cons c cs)
  from Cons.prems have ns: "\<not> startsWith (c # cs) '' as any''" and ni: "\<not> str_includes cs '' as any''"
    by simp_all
  have no: "\<not> startsWith (c # (cs @ '' as any'')) '' as any''"
    using as_any_no_overlap [of "c # cs"] ns by (metis append_Cons list.distinct(1))
  have "replace_first (c # (cs @ '' as any'')) '' as any'' [] =
          c # replace_first (cs @ '' as any'') '' as any'' []"
    by (subst replace_first.simps) (simp only: no if_False)
  then show ?case using Cons.IH [OF ni] by (simp only: append_Cons)
qed

lemma clean_initializer_cast:
  "\<not> str_includes x '' as any'' \<Longrightarrow> clean_initializer (x @ '' as any'') = x"
  by (auto simp: clean_initializer_def endsWith_append_self replace_first_as_any)

lemma clean_initializer_verbatim:
  "\<not> endsWith initText '' as any'' \<Longrightarrow> clean_initializer initText = initText"
  by (auto simp: clean_initializer_def endsWith_def)

section \<open>The traversal keeps the last declaration\<close>

lemma later_append: "later (later r xs) ys = later r (xs @ ys)"
  by (simp add: later_def)

lemma fold_visit_later:
  assumes "\<And>c r. c \<in> set cs \<Longrightarrow> visit_props c r = later r (props_declarations c)"
  shows "fold visit_props cs r = later r (concat (map props_declarations cs))"
  using assms
proof (induction cs arbitrary: r)
  case Nil
  then show ?case by (simp add: later_def)
next
  case (Cons c cs)
  have "fold visit_props (c # cs) r = fold visit_props cs (later r (props_declarations c))"
    using Cons.prems by simp
  also have "\<dots> = later (later r (props_declarations c)) (concat (map props_declarations cs))"
    using Cons.IH Cons.prems by simp
  finally show ?case by (simp add: later_append)
qed

lemma visit_props_later: "visit_props n r = later r (props_declarations n)"
proof (induction n arbitrary: r)
  case (Node k cs)
  have "fold visit_props cs r' = later r' (concat (map props_declarations cs))" for r'
    using fold_visit_later [of cs] Node.IH by blast
  then show ?case
    by (cases "props_of_declaration k") (simp_all add: later_def)
qed

lemma extractProps_last:
  "extractProps csf src = last_option (props_declarations (csf src))"
  by (simp add: extractProps_def visit_props_later later_def last_option_def)


section \<open>The merge of events\<close>

lemma merge_events_event_map:
  "merge_events ps cs = map snd (event_map cs (event_map ps []))"
  by (simp add: merge_events_def event_map_def Let_def)

lemma map_set_keys:
  "map fst (map_set k v m) = (if k \<in> set (map fst m) then map fst m else map fst m @ [k])"
  by (induction m) (force simp: image_iff)+

lemma map_set_distinct: "distinct (map fst m) \<Longrightarrow> distinct (map fst (map_set k v m))"
  by (simp add: map_set_keys)

lemma map_of_map_set: "map_of (map_set k v m) = (map_of m)(k \<mapsto> v)"
  by (induction m) auto

lemma map_set_keyed: "keyed m \<Longrightarrow> keyed (map_set (ename e) e m)"
  unfolding keyed_def by (induction m) (auto split: if_splits)

lemma event_map_Nil [simp]: "event_map [] m = m"
  by (simp add: event_map_def)

lemma event_map_Cons [simp]: "event_map (e # es) m = event_map es (map_set (ename e) e m)"
  by (simp add: event_map_def)

lemma event_map_distinct: "distinct (map fst m) \<Longrightarrow> distinct (map fst (event_map es m))"
  by (induction es arbitrary: m) (simp_all add: map_set_distinct)

lemma event_map_keyed: "keyed m \<Longrightarrow> keyed (event_map es m)"
  by (induction es arbitrary: m) (simp_all add: map_set_keyed)

lemma event_map_other:
  "n \<notin> ename ` set es \<Longrightarrow> map_of (event_map es m) n = map_of m n"
  by (induction es arbitrary: m) (simp_all add: map_of_map_set)

lemma event_map_member:
  "distinct (map ename es) \<Longrightarrow> e \<in> set es \<Longrightarrow> map_of (event_map es m) (ename e) = Some e"
proof (induction es arbitrary: m)
  case Nil
  then show ?case by simp
next
  case (Cons x xs)
  show ?case
  proof (cases "e = x")
    case True
    with Cons.prems have "ename x \<notin> ename ` set xs" by auto
    then show ?thesis using True by (simp add: event_map_other map_of_map_set)
  next
    case False
    with Cons.prems have "e \<in> set xs" "distinct (map ename xs)" by auto
    then show ?thesis using Cons.IH by simp
  qed
qed

lemma event_map_some_member:
  "n \<in> ename ` set es \<Longrightarrow> \<exists>d \<in> set es. ename d = n \<and> map_of (event_map es m) n = Some d"
proof (induction es arbitrary: m)
  case Nil
  then show ?case by simp
next
  case (Cons x xs)
  show ?case
  proof (cases "n \<in> ename ` set xs")
    case True
    then show ?thesis using Cons.IH [of "map_set (ename x) x m"] by auto
  next
    case False
    with Cons.prems have "ename x = n" by auto
    then show ?thesis using False by (auto simp: event_map_other map_of_map_set)
  qed
qed

lemma keyed_names: "keyed m \<Longrightarrow> map (ename \<circ> snd) m = map fst m"
  unfolding keyed_def by (induction m) auto

lemma keyed_find: "keyed m \<Longrightarrow> find (\<lambda>x. ename x = n) (map snd m) = map_of m n"
  unfolding keyed_def by (induction m) auto

lemma keyed_Nil: "keyed []"
  by (simp add: keyed_def)

lemma merge_events_distinct: "distinct (map ename (merge_events ps cs))"
proof -
  have k: "keyed (event_map cs (event_map ps []))"
    by (intro event_map_keyed keyed_Nil)
  have "distinct (map fst (event_map cs (event_map ps [])))"
    by (intro event_map_distinct) simp
  then show ?thesis by (simp add: merge_events_event_map keyed_names [OF k])
qed

lemma merge_events_find: 
  "find (\<lambda>x. ename x = n) (merge_events ps cs) = map_of (event_map cs (event_map ps [])) n"
proof -
  have k: "keyed (event_map cs (event_map ps []))"
    by (intro event_map_keyed keyed_Nil)
  show ?thesis by (simp add: merge_events_event_map keyed_find [OF k])
qed

lemma merge_events_callback:
  "distinct (map ename cs) \<Longrightarrow> e \<in> set cs \<Longrightarrow>
     find (\<lambda>x. ename x = ename e) (merge_events ps cs) = Some e"
  by (simp add: merge_events_find event_map_member)

lemma merge_events_declared:
  assumes "n \<in> ename ` set ps" and "n \<notin> ename ` set cs"
  shows "\<exists>d \<in> set ps. ename d = n \<and> find (\<lambda>x. ename x = n) (merge_events ps cs) = Some d"
  using event_map_some_member [OF assms(1), of "[]"] assms(2)
  by (simp add: merge_events_find event_map_other)

lemma collect_callbacks_names:
  "distinct (map cb_name (collect_callbacks ms seen)) \<and>
   set (map cb_name (collect_callbacks ms seen)) \<inter> set seen = {}"
proof (induction ms seen rule: collect_callbacks.induct)
  case (1 eventSet)
  then show ?case by simp
next
  case (2 eventName raw ms eventSet)
  then show ?case by auto
qed

lemma extractEventCallbacks_distinct: "distinct (map cb_name (extractEventCallbacks js))"
  using collect_callbacks_names [of _ "[]"] by (simp add: extractEventCallbacks_def)

lemma ename_callback_event [simp]: "ename (callback_event e) = cb_name e"
  by (simp add: callback_event_def)

lemma own_callbacks_distinct:
  "distinct (map ename (map callback_event (extractEventCallbacks js)))"
  using extractEventCallbacks_distinct [of js] by (simp add: comp_def)

lemma add_referenced_events_extends:
  "distinct (map ename acc) \<Longrightarrow>
     \<exists>added. add_referenced_events r acc = acc @ added \<and>
             distinct (map ename (acc @ added)) \<and>
             set added \<subseteq> callback_event ` set r"
proof (induction r arbitrary: acc)
  case Nil
  then show ?case by (simp add: add_referenced_events_def)
next
  case (Cons e r)
  have unfold: "add_referenced_events (e # r) acc =
      add_referenced_events r
        (if find (\<lambda>existing. ename existing = cb_name e) acc = None
         then acc @ [callback_event e] else acc)"
    by (simp add: add_referenced_events_def)
  show ?case
  proof (cases "find (\<lambda>existing. ename existing = cb_name e) acc = None")
    case True
    then have fresh: "cb_name e \<notin> ename ` set acc"
      by (auto simp: find_None_iff)
    then have "distinct (map ename (acc @ [callback_event e]))"
      using Cons.prems by auto
    from Cons.IH [OF this] obtain added where
      a: "add_referenced_events r (acc @ [callback_event e]) = (acc @ [callback_event e]) @ added"
      and d: "distinct (map ename ((acc @ [callback_event e]) @ added))"
      and s: "set added \<subseteq> callback_event ` set r"
      by blast
    show ?thesis
      using True a d s unfold
      by (intro exI [of _ "callback_event e # added"]) auto
  next
    case False
    from Cons.IH [OF Cons.prems] obtain added where
      "add_referenced_events r acc = acc @ added" "distinct (map ename (acc @ added))"
      "set added \<subseteq> callback_event ` set r"
      by blast
    then show ?thesis using False unfold
      by (intro exI [of _ added]) auto
  qed
qed

lemma merge_referenced_extends:
  "merge_referenced w paths acc = Some cbs \<Longrightarrow> distinct (map ename acc) \<Longrightarrow>
     \<exists>added. cbs = acc @ added \<and> distinct (map ename cbs)"
proof (induction paths arbitrary: acc)
  case Nil
  then show ?case by simp
next
  case (Cons p ps)
  show ?case
  proof (cases "existsSync (fs_root w) p")
    case False
    then show ?thesis using Cons by simp
  next
    case True
    with Cons.prems(1) obtain refContent where
      rd: "readFileSync (fs_root w) p = Some refContent"
      and rest: "merge_referenced w ps
                   (add_referenced_events (extractEventCallbacks refContent) acc) = Some cbs"
      by (auto split: option.splits)
    from add_referenced_events_extends [OF Cons.prems(2), of "extractEventCallbacks refContent"]
    obtain a1 where a1: "add_referenced_events (extractEventCallbacks refContent) acc = acc @ a1"
      and d1: "distinct (map ename (acc @ a1))" by blast
    from Cons.IH [OF rest [unfolded a1] d1] obtain a2 where
      "cbs = (acc @ a1) @ a2" "distinct (map ename cbs)" by blast
    then show ?thesis by (intro exI [of _ "a1 @ a2"]) simp
  qed
qed

lemma callback_events_own:
  assumes "callback_events w g p nm = Some cbs"
    and "readFileSync (fs_root w) (path_join p (nm @ ''.component.js'')) = Some js"
  shows "\<exists>added. cbs = map callback_event (extractEventCallbacks js) @ added \<and>
                 distinct (map ename cbs)"
proof -
  have ex: "existsSync (fs_root w) (path_join p (nm @ ''.component.js''))"
    using assms(2) by (auto simp: existsSync_def readFileSync_def split: option.splits)
  from assms(1) have
    "merge_referenced w (findReferencedComponents g js)
       (map callback_event (extractEventCallbacks js)) = Some cbs"
    using ex assms(2) by (simp add: callback_events_def Let_def)
  from merge_referenced_extends [OF this own_callbacks_distinct] show ?thesis .
qed

lemma callback_events_distinct:
  assumes "callback_events w g p nm = Some cbs"
  shows "distinct (map ename cbs)"
proof (cases "existsSync (fs_root w) (path_join p (nm @ ''.component.js''))")
  case False
  then show ?thesis using assms by (simp add: callback_events_def Let_def)
next
  case True
  with assms obtain js where "readFileSync (fs_root w) (path_join p (nm @ ''.component.js'')) = Some js"
    by (auto simp: callback_events_def Let_def split: option.splits)
  from callback_events_own [OF assms this] show ?thesis by blast
qed


section \<open>The shape of a generated record\<close>

lemma generateComponentDoc_Some_doc:
  assumes "generateComponentDoc n w g p cat st = Some (Some doc, st')"
  shows "\<exists>m sources st1 allProps b st2 cbs childData.
           n = Suc m \<and>
           extractComponentSources w p st = Some (sources, st1) \<and>
           parse_props (getInheritedProps m w g) w sources st1 = Some ((allProps, b), st2) \<and>
           callback_events w g p (basename p) = Some cbs \<and>
           doc = filterComponentDoc (config g)
                   (ComponentDoc (basename p) p cat allProps (parse_methods w sources)
                      (merge_events (props_events allProps) cbs) (parse_styles w sources) b
                      (if childData \<noteq> [] then Some childData else None) None)"
proof (cases n)
  case 0
  with assms show ?thesis by simp
next
  case (Suc m)
  with assms show ?thesis
    by (auto simp: assemble_doc_def split: option.splits prod.splits if_splits)
qed

lemma generateComponentDoc_events:
  assumes "generateComponentDoc n w g p cat st = Some (Some doc, st')"
  shows "\<exists>allProps cbs. callback_events w g p (basename p) = Some cbs \<and>
           events doc = merge_events (props_events allProps) cbs"
  using generateComponentDoc_Some_doc [OF assms]
  by (auto simp: filterComponentDoc_events)

lemma callback_events_own_emitted:
  assumes "callback_events w g p (basename p) = Some cbs"
  shows "\<exists>added. cbs = own_emitted w p @ added \<and> distinct (map ename cbs)"
proof (cases "readFileSync (fs_root w) (path_join p (basename p @ ''.component.js''))")
  case None
  have "own_emitted w p = []" using None by (simp add: own_emitted_def)
  then show ?thesis using callback_events_distinct [OF assms] by simp
next
  case (Some js)
  then have "own_emitted w p = map callback_event (extractEventCallbacks js)"
    by (simp add: own_emitted_def)
  then show ?thesis using callback_events_own [OF assms Some] by simp
qed

lemma sample_button_generated:
  "generateComponentDoc 3 sample_world sample_generator sample_button_path ''basic'' initial_state =
     Some (Some sample_button_doc, sample_button_state)"
  by code_simp

section \<open>Searching for the artifact of an ancestor\<close>

lemma search_not_found:
  "targetFileName \<notin> file_names n \<Longrightarrow> searchForFile n dir targetFileName = None"
  "targetFileName \<notin> entries_file_names es \<Longrightarrow> search_entries es dir' targetFileName = None"
  by (induction n dir targetFileName and es dir' targetFileName
      rule: searchForFile_search_entries.induct) auto

lemma search_in_not_found:
  "propsFileName \<notin> files_under w searchPath \<Longrightarrow> search_in w propsFileName searchPath = None"
  using search_not_found(1)
  by (auto simp: search_in_def files_under_def split: option.splits)

lemma first_some_None: "(\<forall>x \<in> set xs. f x = None) \<Longrightarrow> first_some f xs = None"
  by (induction xs) auto

lemma findParentPropsFile_not_found:
  assumes "\<forall>cand \<in> set (parent_candidates ancestor). \<forall>sp \<in> set (searchPaths g).
             cand @ ''.props.js.map'' \<notin> files_under w sp"
  shows "findParentPropsFile w g ancestor = None"
  unfolding findParentPropsFile_def
  using assms by (intro first_some_None ballI) (simp add: search_in_not_found)

lemma getInheritedProps_not_found:
  assumes "ancestor \<noteq> ''BaseProps''" and "findParentPropsFile w g ancestor = None"
  shows "getInheritedProps (Suc n) w g ancestor st =
           Some ([], emit (WarnNoParentPropsFile ancestor) (emit (DebugResolvingParent ancestor None) st))"
  using assms by (simp add: Let_def)


section \<open>The cache of the root property set and the chain of ancestors\<close>

lemma emit_cache [simp]: "basePropsCache (emit m st) = basePropsCache st"
  by (simp add: emit_def)

lemma root_props_emit [simp]: "root_props w g (emit m st) = root_props w g st"
  by (simp add: root_props_def)

lemma readSourceMap_fst: "fst (readSourceMap w p st) = fst (readSourceMap w p st')"
  by (simp add: readSourceMap_def split: option.splits ParsedJson.splits)

lemma readSourceMap_cache [simp]: "basePropsCache (snd (readSourceMap w p st)) = basePropsCache st"
  by (simp add: readSourceMap_def split: option.splits ParsedJson.splits)

lemma extractSourceContent_fst:
  "fst (extractSourceContent w p i st) = fst (extractSourceContent w p i st')"
proof -
  obtain a b where x: "readSourceMap w p st = (a, b)" by (cases "readSourceMap w p st")
  obtain a' b' where y: "readSourceMap w p st' = (a', b')" by (cases "readSourceMap w p st'")
  have "a = a'" using readSourceMap_fst [of w p st st'] x y by simp
  then show ?thesis
    by (simp add: extractSourceContent_def x y split: option.splits ParsedJson.splits)
qed

lemma extractSourceContent_cache [simp]:
  "basePropsCache (snd (extractSourceContent w p i st)) = basePropsCache st"
proof -
  obtain a b where x: "readSourceMap w p st = (a, b)" by (cases "readSourceMap w p st")
  have "basePropsCache b = basePropsCache st" using readSourceMap_cache [of w p st] x by simp
  then show ?thesis
    by (simp add: extractSourceContent_def x split: option.splits ParsedJson.splits)
qed

lemma extractSourceContent_root_props [simp]:
  "root_props w g (snd (extractSourceContent w' p i st)) = root_props w g st"
  by (simp add: root_props_def)

lemma extractSourceContent_state:
  assumes "extractSourceContent w' p i st = (a, b)"
  shows "basePropsCache b = basePropsCache st" and "root_props w g b = root_props w g st"
proof -
  have "b = snd (extractSourceContent w' p i st)" using assms by simp
  then show "basePropsCache b = basePropsCache st" and "root_props w g b = root_props w g st"
    by simp_all
qed

lemma base_props_of_map_fst:
  "fst (base_props_of_map w g st) = fst (base_props_of_map w g st')"
  using extractSourceContent_fst [of w "componentsPath g @ [''core'', ''base.component.js.map'']" 0 st st']
  by (auto simp: base_props_of_map_def Let_def split: prod.splits option.splits)

lemma base_props_of_map_cache [simp]:
  "basePropsCache (snd (base_props_of_map w g st)) = basePropsCache st"
  by (auto simp: base_props_of_map_def Let_def extractSourceContent_state(1)
      split: prod.splits option.splits)

lemma getBaseProps_fst: "fst (getBaseProps w g st) = root_props w g st"
proof (cases "basePropsCache st")
  case (Some c)
  then show ?thesis by (simp add: getBaseProps_def root_props_def)
next
  case None
  obtain a b where m: "base_props_of_map w g st = (a, b)" by (cases "base_props_of_map w g st")
  have "a = fst (base_props_of_map w g initial_state)"
    using base_props_of_map_fst [of w g st initial_state] m by simp
  then show ?thesis
    using None m
    by (auto simp: getBaseProps_def root_props_def base_lookup_def split: option.splits)
qed

lemma getBaseProps_cache:
  "basePropsCache (snd (getBaseProps w g st)) =
     (case basePropsCache st of Some c \<Rightarrow> Some c | None \<Rightarrow> base_lookup w g)"
proof (cases "basePropsCache st")
  case (Some c)
  then show ?thesis by (simp add: getBaseProps_def)
next
  case None
  obtain a b where m: "base_props_of_map w g st = (a, b)" by (cases "base_props_of_map w g st")
  have a: "a = fst (base_props_of_map w g initial_state)"
    using base_props_of_map_fst [of w g st initial_state] m by simp
  have b: "basePropsCache b = None"
    using base_props_of_map_cache [of w g st] m None by simp
  show ?thesis
    using None m a b
    by (auto simp: getBaseProps_def base_lookup_def split: option.splits)
qed

lemma getBaseProps_root_props [simp]:
  "root_props w g (snd (getBaseProps w g st)) = root_props w g st"
  by (simp add: root_props_def getBaseProps_cache split: option.splits)

lemma getBaseProps_cache_kept:
  "basePropsCache st = Some c \<Longrightarrow> basePropsCache (snd (getBaseProps w g st)) = Some c"
  by (simp add: getBaseProps_cache)

lemma keeps_refl [simp]: "keeps w g st st"
  by (simp add: keeps_def)

lemma keeps_trans: "keeps w g a b \<Longrightarrow> keeps w g b c \<Longrightarrow> keeps w g a c"
  by (simp add: keeps_def)

lemma keeps_emit [simp]: "keeps w g st (emit m st)"
  by (simp add: keeps_def)

lemma keeps_emit_right: "keeps w g a b \<Longrightarrow> keeps w g a (emit m b)"
  by (simp add: keeps_def)

lemma keeps_extractSourceContent:
  "extractSourceContent w' p i st = (a, b) \<Longrightarrow> keeps w g st b"
  using extractSourceContent_state [of w' p i st a b] by (simp add: keeps_def)

lemma keeps_getBaseProps: "keeps w g st (snd (getBaseProps w g st))"
  by (simp add: keeps_def getBaseProps_cache_kept)

lemma source_content_eq: "extractSourceContent w p 0 st = (a, b) \<Longrightarrow> source_content w p = a"
  using extractSourceContent_fst [of w p 0 initial_state st] by (simp add: source_content_def)

lemma tag_inherited_fields [simp]:
  "inherited (tag_inherited a p) = Some True"
  "inheritedFrom (tag_inherited a p) = Some a"
  by (simp_all add: tag_inherited_def)

lemma getInheritedProps_root:
  "getInheritedProps (Suc n) w g ''BaseProps'' st =
     Some (map (tag_inherited ''BaseProps'') (fst (getBaseProps w g st)), snd (getBaseProps w g st))"
  by (simp add: case_prod_beta)

lemma getInheritedProps_found:
  assumes "ancestor \<noteq> ''BaseProps''"
    and "findParentPropsFile w g ancestor = Some propsPath"
    and "extractSourceContent w propsPath 0
           (emit (DebugResolvingParent ancestor (Some propsPath)) st) = (Some src, st2)"
    and "src \<noteq> []"
    and "extractProps (createSourceFile w) src = Some propsInfo"
  shows "getInheritedProps (Suc n) w g ancestor st =
     (case truthy (r_baseClass propsInfo) of
        None \<Rightarrow>
          Some (map (tag_inherited ancestor) (r_props propsInfo),
                emit (DebugExtractedProps (length (r_props propsInfo)) ancestor
                        (r_baseClass propsInfo)) st2)
      | Some grandparent \<Rightarrow>
          (case getInheritedProps n w g grandparent
                  (emit (DebugExtractedProps (length (r_props propsInfo)) ancestor
                           (r_baseClass propsInfo)) st2) of
             None \<Rightarrow>
               Some (map (tag_inherited ancestor) (r_props propsInfo),
                     emit (ErrorExtracting ancestor)
                       (emit (DebugExtractedProps (length (r_props propsInfo)) ancestor
                                (r_baseClass propsInfo)) st2))
           | Some (further, st4) \<Rightarrow>
               Some (map (tag_inherited ancestor) (r_props propsInfo) @ further, st4)))"
  using assms by (simp add: Let_def split: option.splits)

lemma getInheritedProps_chain_aux:
  "(case getInheritedProps n w g ancestor st of
      None \<Rightarrow> n = 0
    | Some (r, st') \<Rightarrow> r = chain_props n w g (root_props w g st) ancestor \<and> keeps w g st st')"
proof (induction n arbitrary: ancestor st)
  case 0
  show ?case by simp
next
  case (Suc n)
  show ?case
  proof (cases "ancestor = ''BaseProps''")
    case True
    then show ?thesis
      by (simp add: getInheritedProps_root getBaseProps_fst keeps_getBaseProps
          del: getInheritedProps.simps)
  next
    case False
    show ?thesis
    proof (cases "findParentPropsFile w g ancestor")
      case None
      with False show ?thesis
        by (simp add: Let_def resolve_artifact_def keeps_emit_right)
    next
      case (Some propsPath)
      define s1 where "s1 = emit (DebugResolvingParent ancestor (Some propsPath)) st"
      obtain source s2 where ex: "extractSourceContent w propsPath 0 s1 = (source, s2)"
        by (cases "extractSourceContent w propsPath 0 s1")
      have sc: "source_content w propsPath = source" using ex by (rule source_content_eq)
      have k2: "keeps w g st s2"
        using keeps_extractSourceContent [OF ex, of w g] by (simp add: s1_def keeps_def)
      show ?thesis
      proof (cases "truthy source")
        case None
        with False Some ex sc k2 show ?thesis
          by (simp add: Let_def resolve_artifact_def s1_def)
      next
        case src: (Some src)
        then have source: "source = Some src" "src \<noteq> []"
          by (cases source; auto split: if_splits)+
        show ?thesis
        proof (cases "extractProps (createSourceFile w) src")
          case None
          with False Some ex sc k2 src show ?thesis
            by (simp add: Let_def resolve_artifact_def s1_def)
        next
          case pi: (Some propsInfo)
          define s3 where "s3 = emit (DebugExtractedProps (length (r_props propsInfo)) ancestor
                                       (r_baseClass propsInfo)) s2"
          have k3: "keeps w g st s3" using k2 by (simp add: s3_def keeps_emit_right)
          have ra: "resolve_artifact w g ancestor = Some propsInfo"
            using Some sc src pi by (simp add: resolve_artifact_def)
          note step = getInheritedProps_found [OF False Some ex [unfolded s1_def source(1)] source(2) pi,
              of n, folded s3_def]
          show ?thesis
          proof (cases "truthy (r_baseClass propsInfo)")
            case None
            with step False ra k3 show ?thesis
              by (simp del: getInheritedProps.simps)
          next
            case gp: (Some grandparent)
            have rp: "root_props w g s3 = root_props w g st" using k3 by (simp add: keeps_def)
            show ?thesis
            proof (cases "getInheritedProps n w g grandparent s3")
              case None
              with Suc.IH [where ancestor = grandparent and st = s3] have "n = 0" by simp
              with step gp None False ra k3 show ?thesis
                by (simp add: keeps_emit_right del: getInheritedProps.simps)
            next
              case (Some a)
              obtain further s4 where a: "a = (further, s4)" by (cases a)
              with Suc.IH [where ancestor = grandparent and st = s3] Some
              have f: "further = chain_props n w g (root_props w g s3) grandparent"
                and k4: "keeps w g s3 s4" by simp_all
              have "keeps w g st s4" using k3 k4 by (rule keeps_trans)
              with step gp Some a f rp False ra show ?thesis
                by (simp del: getInheritedProps.simps)
            qed
          qed
        qed
      qed
    qed
  qed
qed

lemma getInheritedProps_chain:
  "\<exists>st'. getInheritedProps (Suc n) w g ancestor st =
            Some (chain_props (Suc n) w g (root_props w g st) ancestor, st') \<and>
          keeps w g st st'"
  using getInheritedProps_chain_aux [where n = "Suc n" and w = w and g = g and ancestor = ancestor and st = st]
  by (auto split: option.splits simp del: getInheritedProps.simps chain_props.simps)

lemma getInheritedProps_returned:
  assumes "getInheritedProps n w g ancestor st = Some (r, st')"
  shows "r = chain_props n w g (root_props w g st) ancestor" and "keeps w g st st'"
  using getInheritedProps_chain_aux [where n = n and w = w and g = g and ancestor = ancestor and st = st] assms by simp_all

lemma keeps_getInheritedProps:
  "getInheritedProps n w g ancestor st = Some (r, st') \<Longrightarrow> keeps w g st st'"
  by (rule getInheritedProps_returned(2))

lemma chain_within_positive: "chain_within n w g ancestor \<Longrightarrow> \<exists>k. n = Suc k"
  by (cases n) simp_all

lemma chain_props_depth:
  "chain_within n w g ancestor \<Longrightarrow> chain_within m w g ancestor \<Longrightarrow>
     chain_props n w g rootProps ancestor = chain_props m w g rootProps ancestor"
proof (induction n arbitrary: m ancestor)
  case 0
  then show ?case by simp
next
  case (Suc n)
  from Suc.prems(2) obtain k where m: "m = Suc k" by (auto dest: chain_within_positive)
  show ?case
  proof (cases "ancestor = ''BaseProps''")
    case True
    then show ?thesis by (simp add: m)
  next
    case False
    show ?thesis
    proof (cases "resolve_artifact w g ancestor")
      case None
      with False show ?thesis by (simp add: m)
    next
      case (Some propsInfo)
      show ?thesis
      proof (cases "truthy (r_baseClass propsInfo)")
        case None
        with False Some show ?thesis by (simp add: m)
      next
        case gp: (Some grandparent)
        with Suc.prems False Some m
        have "chain_within n w g grandparent" "chain_within k w g grandparent" by simp_all
        from Suc.IH [OF this] False Some gp show ?thesis by (simp add: m)
      qed
    qed
  qed
qed

lemma chain_props_tagged:
  "\<forall>p \<in> set (chain_props n w g rootProps ancestor).
     inherited p = Some True \<and> inheritedFrom p \<noteq> None"
proof (induction n arbitrary: ancestor)
  case 0
  show ?case by simp
next
  case (Suc n)
  show ?case using Suc.IH by (auto split: option.splits)
qed

lemma getInheritedProps_tagged:
  "getInheritedProps n w g ancestor st = Some (r, st') \<Longrightarrow>
     \<forall>p \<in> set r. inherited p = Some True \<and> inheritedFrom p \<noteq> None"
  using getInheritedProps_returned(1) chain_props_tagged by metis

lemma keeps_read_into: "keeps w g st (snd acc) \<Longrightarrow> keeps w g st (snd (read_into w' p assign acc))"
  by (auto simp: read_into_def keeps_emit_right split: option.splits)

lemma keeps_map_into:
  "keeps w g st (snd acc) \<Longrightarrow> keeps w g st (snd (map_into w' dir files suffix assign acc))"
  by (auto simp: map_into_def split: option.splits prod.splits
      intro: keeps_trans keeps_extractSourceContent)

lemma keeps_direct_sources: "keeps w g st (snd (direct_sources w' dir files idx st))"
  by (auto simp: direct_sources_def Let_def intro!: keeps_read_into split: option.splits)

lemma keeps_compiled_sources: "keeps w g st (snd (compiled_sources w' dir files st))"
  by (auto simp: compiled_sources_def Let_def intro!: keeps_map_into)

lemma keeps_extractComponentSources:
  "extractComponentSources w' p st = Some (sources, st1) \<Longrightarrow> keeps w g st st1"
  using keeps_direct_sources [of w g st w' p] keeps_compiled_sources [of w g st w' p]
  by (auto simp: extractComponentSources_def split: option.splits) (metis snd_conv)+

lemma keeps_parse_props:
  "parse_props (getInheritedProps n w g) w sources st = Some (x, st') \<Longrightarrow> keeps w g st st'"
  by (auto simp: parse_props_def split: option.splits dest: keeps_getInheritedProps)

lemma keeps_children_loop:
  assumes gen: "\<And>p c s d s'. gen p c s = Some (d, s') \<Longrightarrow> keeps w g s s'"
  shows "keeps w g st (snd (children_loop gen w' cp cn cat entries st))"
proof (induction entries arbitrary: st)
  case Nil
  show ?case by simp
next
  case (Cons e entries)
  obtain childName relativePath where e: "e = (childName, relativePath)" by (cases e)
  show ?case
  proof (cases "existsSync (fs_root w') (path_resolve cp relativePath)")
    case True
    show ?thesis
    proof (cases "gen (path_resolve cp relativePath) cat st")
      case None
      with True e show ?thesis by (simp add: Let_def)
    next
      case (Some a)
      obtain childDoc s1 where a: "a = (childDoc, s1)" by (cases a)
      have k1: "keeps w g st s1" using gen Some a by blast
      have k2: "keeps w g s1 (snd (children_loop gen w' cp cn cat entries s1))"
        by (rule Cons.IH)
      have "snd (children_loop gen w' cp cn cat (e # entries) st) =
              snd (children_loop gen w' cp cn cat entries s1)"
        using True e Some a by (simp add: Let_def split: prod.splits option.splits)
      with k1 k2 show ?thesis by (metis keeps_trans)
    qed
  next
    case False
    have "keeps w g (emit (WarnChildPathNotFound (path_resolve cp relativePath) childName cn) st)
            (snd (children_loop gen w' cp cn cat entries
               (emit (WarnChildPathNotFound (path_resolve cp relativePath) childName cn) st)))"
      by (rule Cons.IH)
    then have "keeps w g st
            (snd (children_loop gen w' cp cn cat entries
               (emit (WarnChildPathNotFound (path_resolve cp relativePath) childName cn) st)))"
      by (rule keeps_trans [OF keeps_emit])
    then show ?thesis
      using False e by (simp add: Let_def)
  qed
qed

lemma keeps_assemble_doc:
  assumes gen: "\<And>p c s d s'. gen p c s = Some (d, s') \<Longrightarrow> keeps w g s s'"
    and "assemble_doc gen w' g' p cat sources allProps b st = Some (d, st')"
  shows "keeps w g st st'"
proof (cases "callback_events w' g' p (basename p)")
  case None
  with assms(2) show ?thesis by (auto simp: assemble_doc_def)
next
  case (Some cbs)
  obtain r s1 where c: "children_loop gen w' p (basename p) cat
      (configured_children g' (basename p)) st = (r, s1)"
    by (cases "children_loop gen w' p (basename p) cat (configured_children g' (basename p)) st")
  have k: "keeps w g st s1"
    using keeps_children_loop [of gen w g st w' p "basename p" cat
        "configured_children g' (basename p)", OF gen] c by simp
  from assms(2) Some c have "st' = s1 \<or> st' = emit (ErrorGeneratingDocs p) s1"
    by (auto simp: assemble_doc_def split: option.splits)
  with k show ?thesis by (auto intro: keeps_emit_right)
qed

lemma keeps_generateComponentDoc:
  "generateComponentDoc n w g p cat st = Some (d, st') \<Longrightarrow> keeps w g st st'"
proof (induction n arbitrary: p cat st d st')
  case 0
  then show ?case by simp
next
  case (Suc n)
  show ?case
  proof (cases "extractComponentSources w p st")
    case None
    with Suc.prems show ?thesis by auto
  next
    case (Some a)
    obtain sources st1 where a: "a = (sources, st1)" by (cases a)
    have k1: "keeps w g st st1" using Some a by (auto dest: keeps_extractComponentSources)
    show ?thesis
    proof (cases "truthy (src_props sources) = None \<and> truthy (src_component sources) = None")
      case True
      with Suc.prems Some a k1 show ?thesis by (auto intro: keeps_emit_right)
    next
      case False
      show ?thesis
      proof (cases "parse_props (getInheritedProps n w g) w sources st1")
        case None
        with Suc.prems Some a False k1 show ?thesis by (auto intro: keeps_emit_right)
      next
        case pp: (Some x)
        obtain allProps b st2 where x: "x = ((allProps, b), st2)" by (cases x) auto
        from Suc.prems Some a False pp x have
          asm: "assemble_doc (generateComponentDoc n w g) w g p cat sources allProps b st2 =
                    Some (d, st')"
          by auto
        have k2: "keeps w g st1 st2" using pp x by (auto dest: keeps_parse_props)
        have k3: "keeps w g st2 st'"
          by (rule keeps_assemble_doc [OF Suc.IH asm])
        from k1 k2 k3 show ?thesis by (blast intro: keeps_trans)
      qed
    qed
  qed
qed

section \<open>The style visitor\<close>

lemma fold_visit_styles:
  assumes "\<And>c acc. c \<in> set cs \<Longrightarrow> visit_styles c acc = fold styles_at_node (preorder c) acc"
  shows "fold visit_styles cs acc = fold styles_at_node (concat (map preorder cs)) acc"
  using assms by (induction cs arbitrary: acc) simp_all

lemma visit_styles_preorder: "visit_styles n acc = fold styles_at_node (preorder n) acc"
proof (induction n arbitrary: acc)
  case (Node k cs)
  then show ?case using fold_visit_styles [of cs] by simp
qed

lemma declaration_other:
  "declared_identifier d \<noteq> Some ''DEFAULT_CLASS'' \<Longrightarrow> declaration_default_class d dc = dc"
  by (induction d dc rule: declaration_default_class.induct) auto

lemma declarations_other:
  "\<not> list_ex (\<lambda>d. declared_identifier d = Some ''DEFAULT_CLASS'') decls \<Longrightarrow>
     fold declaration_default_class decls dc = dc"
  by (induction decls) (simp_all add: declaration_other)

lemma styles_at_irrelevant: "\<not> style_relevant k \<Longrightarrow> styles_at_node k acc = acc"
  by (cases k) (simp_all add: declarations_other)

lemma fold_styles_relevant:
  "fold styles_at_node ks acc = fold styles_at_node (filter style_relevant ks) acc"
  by (induction ks arbitrary: acc) (simp_all add: styles_at_irrelevant)

lemma scenario_b_resolved:
  "resolve_class_name ''app-button'' (''DEFAULT_CLASS + '-disabled'' @ [CHR 0x27]) =
     ''app-button-disabled''"
  by code_simp

lemma scenario_b_visit:
  assumes "filter style_relevant (preorder ast) =
             [scenario_b_constant, CallExpression callee (scenario_b_argument # args)]"
  shows "visit_styles ast \<lparr> r_defaultClass = [], r_styleClasses = [] \<rparr> =
           \<lparr> r_defaultClass = ''app-button'', r_styleClasses = [''app-button-disabled''] \<rparr>"
proof -
  have "CallExpression callee (scenario_b_argument # args) \<in>
          set (filter style_relevant (preorder ast))"
    unfolding assms by simp
  then have "style_relevant (CallExpression callee (scenario_b_argument # args))"
    by (simp only: set_filter mem_Collect_eq)
  then have add: "isAddStyleCall callee" by simp
  have "visit_styles ast \<lparr> r_defaultClass = [], r_styleClasses = [] \<rparr> =
          fold styles_at_node [scenario_b_constant, CallExpression callee (scenario_b_argument # args)]
            \<lparr> r_defaultClass = [], r_styleClasses = [] \<rparr>"
    using fold_styles_relevant [of "preorder ast"] assms by (simp add: visit_styles_preorder)
  also have "\<dots> = \<lparr> r_defaultClass = ''app-button'', r_styleClasses = [''app-button-disabled''] \<rparr>"
    using add scenario_b_resolved
    by (simp add: scenario_b_constant_def scenario_b_argument_def push_unique_def)
  finally show ?thesis .
qed

lemma generateComponentDoc_styles:
  assumes "generateComponentDoc n w g p cat st = Some (Some doc, st')"
    and "extractComponentSources w p st = Some (sources, st1)"
  shows "styles doc = filter (keep_style (documentation (config g)) (basename p)) (parse_styles w sources)"
  using generateComponentDoc_Some_doc [OF assms(1)] assms(2)
  by (auto simp: filterComponentDoc_styles)

section \<open>Calls that return\<close>

lemma getInheritedProps_total:
  "\<exists>r st'. getInheritedProps (Suc n) w g ancestor st = Some (r, st')"
  using getInheritedProps_chain [of n w g ancestor st] by blast

lemma parse_props_total:
  assumes "\<And>a s. \<exists>r s'. inh a s = Some (r, s')"
  shows "\<exists>allProps b st'. parse_props inh w sources st = Some ((allProps, b), st')"
proof (cases "truthy (src_props sources)")
  case None
  then show ?thesis by (simp add: parse_props_def)
next
  case src: (Some src)
  show ?thesis
  proof (cases "extractProps (createSourceFile w) src")
    case None
    with src show ?thesis by (simp add: parse_props_def)
  next
    case pi: (Some propsInfo)
    show ?thesis
    proof (cases "truthy (r_baseClass propsInfo)")
      case None
      with src pi show ?thesis by (simp add: parse_props_def)
    next
      case (Some base)
      from assms obtain inhd s' where "inh base st = Some (inhd, s')" by blast
      with src pi Some show ?thesis by (simp add: parse_props_def)
    qed
  qed
qed

lemma children_loop_total:
  assumes gen: "\<And>p c s. \<exists>d s'. gen p c s = Some (d, s')"
  shows "\<exists>childData st'. children_loop gen w cp cn cat entries st = (Some childData, st')"
proof (induction entries arbitrary: st)
  case Nil
  show ?case by simp
next
  case (Cons e entries)
  obtain childName relativePath where e: "e = (childName, relativePath)" by (cases e)
  show ?case
  proof (cases "existsSync (fs_root w) (path_resolve cp relativePath)")
    case True
    from gen obtain d s1 where d: "gen (path_resolve cp relativePath) cat st = Some (d, s1)"
      by blast
    from Cons.IH [of s1] obtain docs s2 where
      "children_loop gen w cp cn cat entries s1 = (Some docs, s2)" by blast
    with True e d show ?thesis by (simp add: Let_def)
  next
    case False
    with e Cons.IH show ?thesis by (simp add: Let_def)
  qed
qed

lemma assemble_doc_total:
  "\<exists>d st'. assemble_doc gen w g p cat sources allProps b st = Some (d, st')"
  by (simp add: assemble_doc_def split: option.splits prod.splits)

lemma generateComponentDoc_total:
  "\<exists>d st'. generateComponentDoc (Suc n) w g p cat st = Some (d, st')"
  using assemble_doc_total [of "generateComponentDoc n w g" w g p cat]
  by (simp split: option.splits prod.splits)

lemma generateComponentDoc_returns:
  assumes "extractComponentSources w p st = Some (sources, st1)"
    and "truthy (src_props sources) \<noteq> None \<or> truthy (src_component sources) \<noteq> None"
    and "callback_events w g p (basename p) = Some cbs"
  shows "\<exists>allProps b st2 childData st3.
           parse_props (getInheritedProps (Suc m) w g) w sources st1 = Some ((allProps, b), st2) \<and>
           children_loop (generateComponentDoc (Suc m) w g) w p (basename p) cat
             (configured_children g (basename p)) st2 = (Some childData, st3) \<and>
           generateComponentDoc (Suc (Suc m)) w g p cat st =
             Some (Some (filterComponentDoc (config g)
                     (ComponentDoc (basename p) p cat allProps (parse_methods w sources)
                        (merge_events (props_events allProps) cbs) (parse_styles w sources) b
                        (if childData \<noteq> [] then Some childData else None) None)), st3)"
proof -
  from parse_props_total [of "getInheritedProps (Suc m) w g" w sources st1]
    getInheritedProps_total [of m w g]
  obtain allProps b st2 where
    pp: "parse_props (getInheritedProps (Suc m) w g) w sources st1 = Some ((allProps, b), st2)"
    by blast
  from children_loop_total [of "generateComponentDoc (Suc m) w g" w p "basename p" cat
      "configured_children g (basename p)" st2]
    generateComponentDoc_total [of m w g]
  obtain childData st3 where
    cl: "children_loop (generateComponentDoc (Suc m) w g) w p (basename p) cat
           (configured_children g (basename p)) st2 = (Some childData, st3)"
    by blast
  have "generateComponentDoc (Suc (Suc m)) w g p cat st =
          Some (Some (filterComponentDoc (config g)
                  (ComponentDoc (basename p) p cat allProps (parse_methods w sources)
                     (merge_events (props_events allProps) cbs) (parse_styles w sources) b
                     (if childData \<noteq> [] then Some childData else None) None)), st3)"
    using assms(2,3) pp cl
    by (subst generateComponentDoc.simps(2))
      (auto simp: assms(1) assemble_doc_def
        simp del: getInheritedProps.simps(2) generateComponentDoc.simps(2))
  with pp cl show ?thesis by blast
qed

section \<open>Claim C2: the default value of a property\<close>

text \<open>
  C2 as stated: an initializer \<^verbatim>\<open>x as <Type>\<close> is recorded as \<^verbatim>\<open>x\<close>, for any type. The
  code tests \<^verbatim>\<open>initText.endsWith(' as any')\<close> only: the initializer \<^verbatim>\<open>1 as number\<close>
  is recorded with its cast.
\<close>

theorem typed_cast_kept_counterexample:
  "map_option r_props (props_of_declaration c2_class) =
     Some [\<lparr> pname = ''count'', ptype = ''number'', defaultValue = Some ''1 as number'',
             optional = False, pdescription = None, inherited = Some False, inheritedFrom = None \<rparr>]"
  by code_simp

text \<open>
  C2, amended: the properties of an extracted Props class are its property declarations
  in order; an initializer \<^verbatim>\<open>x as any\<close>, where \<^verbatim>\<open>x\<close> itself does not contain
  \<^verbatim>\<open> as any\<close>, is recorded as \<^verbatim>\<open>x\<close>; an initializer that does not end in
  \<^verbatim>\<open> as any\<close> (a cast to another type included) is recorded verbatim; a member without
  initializer has no default value.
\<close>

theorem initializer_cast_cleanup:
  assumes "props_of_declaration (ClassDeclaration (Some cname) hs ms) = Some r"
  shows "r_props r = List.map_filter class_member_prop ms \<and>
         (\<forall>n q ty x. \<not> str_includes x '' as any'' \<longrightarrow>
            map_option defaultValue
              (class_member_prop (PropertyDeclaration n q ty (Some (x @ '' as any'')))) = Some (Some x)) \<and>
         (\<forall>n q ty init. \<not> endsWith init '' as any'' \<longrightarrow>
            map_option defaultValue
              (class_member_prop (PropertyDeclaration n q ty (Some init))) = Some (Some init)) \<and>
         (\<forall>n q ty. map_option defaultValue
              (class_member_prop (PropertyDeclaration n q ty None)) = Some None)"
  using assms
  by (auto simp: clean_initializer_cast clean_initializer_verbatim split: if_splits)

theorem initializer_cast_cleanup_witness:
  "map_option (map defaultValue) (map_option r_props (props_of_declaration c2w_class)) =
     Some [Some ''null'', Some ''42'', None] \<and>
   \<not> str_includes ''null'' '' as any'' \<and>
   map_option defaultValue
     (class_member_prop (PropertyDeclaration ''caption'' False (Some ''string'')
        (Some (''null'' @ '' as any'')))) = Some (Some ''null'') \<and>
   \<not> endsWith ''42'' '' as any'' \<and>
   map_option defaultValue
     (class_member_prop (PropertyDeclaration ''limit'' False (Some ''number'') (Some ''42''))) =
     Some (Some ''42'')"
proof -
  obtain r where h: "props_of_declaration
      (ClassDeclaration (Some ''WmLabelProps'') [HeritageClause ExtendsKeyword ''BaseProps'']
         [PropertyDeclaration ''caption'' False (Some ''string'') (Some ''null as any''),
          PropertyDeclaration ''limit'' False (Some ''number'') (Some ''42''),
          PropertyDeclaration ''onTap'' True (Some ''Function'') None]) = Some r"
    by (simp add: endsWith_def)
  note t = initializer_cast_cleanup [OF h]
  have a: "\<not> str_includes ''null'' '' as any''" by simp
  have b: "\<not> endsWith ''42'' '' as any''" by (simp add: endsWith_def)
  have c: "map_option defaultValue
     (class_member_prop (PropertyDeclaration ''caption'' False (Some ''string'')
        (Some (''null'' @ '' as any'')))) = Some (Some ''null'')"
    using t a by blast
  have d: "map_option defaultValue
     (class_member_prop (PropertyDeclaration ''limit'' False (Some ''number'') (Some ''42''))) =
     Some (Some ''42'')"
    using t b by blast
  have e: "map_option (map defaultValue) (map_option r_props (props_of_declaration c2w_class)) =
     Some [Some ''null'', Some ''42'', None]"
    by code_simp
  show ?thesis using a b c d e by blast
qed

section \<open>Claim C3: exclusion by the filter\<close>

text \<open>
  C3 as stated: a property whose name is in the global property exclude-list, the global
  inherited-property exclude-list or the component's override list is absent from the
  filtered record, whether it is own or inherited. The code applies the
  inherited-property list under the guard \<^verbatim>\<open>prop.inherited &&\<close>: the own property
  \<^verbatim>\<open>id\<close> of \<open>c3_doc\<close> is in that list of \<^verbatim>\<open>DEFAULT_CONFIG\<close> and is still in
  the filtered record.
\<close>

theorem filter_keeps_own_prop_counterexample:
  "pname c3_prop \<in> set (excludeInheritedProps (documentation sample_config)) \<and>
   c3_prop \<in> set (props c3_doc) \<and>
   c3_prop \<in> set (props (filterComponentDoc sample_config c3_doc))"
  by (simp add: filterComponentDoc_props keep_prop_def c3_prop_def c3_doc_def sample_config_def
      override_includes_def)

text \<open>
  C3, amended: no property of the filtered record is named in the global property
  exclude-list or in the component's override list, and no inherited property of it is
  named in the inherited-property exclude-list; an own property passes the filter when
  the first two lists do not name it, whatever the inherited-property list holds. No
  method and no style class of the filtered record is named in the global list or the
  override list of its kind.
\<close>

theorem filter_exclusion:
  fixes cfg :: GeneratorConfig and doc :: ComponentDoc
  defines "dc \<equiv> documentation cfg"
  defines "ov \<equiv> componentOverrides (documentation cfg) (componentName doc)"
  defines "out \<equiv> filterComponentDoc cfg doc"
  shows "(\<forall>p \<in> set (props out).
            pname p \<notin> set (excludeProps dc) \<and>
            \<not> override_includes ov ov_excludeProps (pname p) \<and>
            (inherited p = Some True \<longrightarrow> pname p \<notin> set (excludeInheritedProps dc))) \<and>
         (\<forall>p \<in> set (props doc).
            inherited p \<noteq> Some True \<and> pname p \<notin> set (excludeProps dc) \<and>
            \<not> override_includes ov ov_excludeProps (pname p) \<longrightarrow> p \<in> set (props out)) \<and>
         (\<forall>m \<in> set (methods out).
            mname m \<notin> set (excludeMethods dc) \<and>
            \<not> override_includes ov ov_excludeMethods (mname m)) \<and>
         (\<forall>s \<in> set (styles out).
            className s \<notin> set (excludeStyleClasses dc) \<and>
            \<not> override_includes ov ov_excludeStyleClasses (className s))"
  unfolding dc_def ov_def out_def
  by (auto simp: filterComponentDoc_props filterComponentDoc_methods filterComponentDoc_styles
      keep_prop_iff keep_method_iff keep_style_iff)

theorem filter_exclusion_witness:
  "c3w_own ''id'' \<in> set (props c3w_doc) \<and>
   inherited (c3w_own ''id'') \<noteq> Some True \<and>
   pname (c3w_own ''id'') \<in> set (excludeInheritedProps (documentation c3w_config)) \<and>
   c3w_own ''id'' \<in> set (props (filterComponentDoc c3w_config c3w_doc)) \<and>
   props (filterComponentDoc c3w_config c3w_doc) =
     [c3w_own ''caption'', c3w_own ''id'', c3w_inherited ''show''] \<and>
   methods (filterComponentDoc c3w_config c3w_doc) = [c3w_method ''focus''] \<and>
   styles (filterComponentDoc c3w_config c3w_doc) = [c3w_style ''app-card'']"
  using filter_exclusion [of c3w_config c3w_doc]
  by (simp add: filterComponentDoc_props filterComponentDoc_methods filterComponentDoc_styles
      keep_prop_def keep_method_def keep_style_def override_includes_def
      c3w_config_def c3w_doc_def c3w_own_def c3w_inherited_def c3w_method_def c3w_style_def)

section \<open>Claim C7: a component without sources\<close>

text \<open>
  C7: when the sources that \<^verbatim>\<open>extractComponentSources\<close> finds hold neither a
  properties source nor a behavior source, \<^verbatim>\<open>generateComponentDoc\<close> returns: its
  result is \<^verbatim>\<open>null\<close>, after the warning on the console. The same holds when the
  directory cannot be listed: the exception ends in the \<^verbatim>\<open>catch\<close> of
  \<^verbatim>\<open>generateComponentDoc\<close>, which logs it and returns \<^verbatim>\<open>null\<close>. Both hold for every
  bound on the recursion of at least one, since the call returns before any recursion.
\<close>

theorem missing_sources_give_null:
  "(extractComponentSources w p st = None \<longrightarrow>
      generateComponentDoc (Suc n) w g p cat st = Some (None, emit (ErrorGeneratingDocs p) st)) \<and>
   (\<forall>sources st1.
      extractComponentSources w p st = Some (sources, st1) \<and>
      truthy (src_props sources) = None \<and> truthy (src_component sources) = None \<longrightarrow>
      generateComponentDoc (Suc n) w g p cat st = Some (None, emit (WarnNoSourceFiles p) st1))"
  by simp

theorem missing_sources_give_null_witness:
  "extractComponentSources sample_world sample_empty_path initial_state =
     Some (\<lparr> src_props = None, src_component = None, src_styles = None \<rparr>, initial_state) \<and>
   truthy None = None \<and>
   generateComponentDoc 1 sample_world sample_generator sample_empty_path ''basic'' initial_state =
     Some (None, emit (WarnNoSourceFiles sample_empty_path) initial_state) \<and>
   extractComponentSources sample_world [''lib'', ''missing''] initial_state = None \<and>
   generateComponentDoc 1 sample_world sample_generator [''lib'', ''missing''] ''basic'' initial_state =
     Some (None, emit (ErrorGeneratingDocs [''lib'', ''missing'']) initial_state)"
proof -
  have h: "extractComponentSources sample_world sample_empty_path initial_state =
     Some (\<lparr> src_props = None, src_component = None, src_styles = None \<rparr>, initial_state)"
    by code_simp
  have u: "extractComponentSources sample_world [''lib'', ''missing''] initial_state = None"
    by code_simp
  show ?thesis
    using missing_sources_give_null [of sample_world sample_empty_path initial_state 0
        sample_generator "''basic''"]
      missing_sources_give_null [of sample_world "[''lib'', ''missing'']" initial_state 0
        sample_generator "''basic''"] h u
    by simp
qed

section \<open>Claim C8: an ancestor that cannot be found\<close>

text \<open>
  C8: let \<open>ancestor\<close> be a name other than \<^verbatim>\<open>BaseProps\<close> such that no regular file
  under \<^verbatim>\<open>components\<close> or \<^verbatim>\<open>core\<close> is named after one of its candidate stems with
  the extension \<^verbatim>\<open>.props.js.map\<close>. Then the resolution of \<open>ancestor\<close> returns the
  empty list after the warning on the console; the generation of a component that
  declares this ancestor goes on with the own properties alone; and when the compiled
  file of the component is readable or absent and no child is configured, it returns a
  record whose properties are the own ones that pass the filter.
\<close>

theorem unresolved_ancestor_is_not_fatal:
  assumes "ancestor \<noteq> ''BaseProps''"
    and "\<forall>cand \<in> set (parent_candidates ancestor). \<forall>sp \<in> set (searchPaths g).
           cand @ ''.props.js.map'' \<notin> files_under w sp"
  shows "getInheritedProps (Suc n) w g ancestor st =
           Some ([], emit (WarnNoParentPropsFile ancestor)
                       (emit (DebugResolvingParent ancestor None) st)) \<and>
         (\<forall>sources st1 src res.
            extractComponentSources w p st = Some (sources, st1) \<and>
            truthy (src_props sources) = Some src \<and>
            extractProps (createSourceFile w) src = Some res \<and>
            r_baseClass res = Some ancestor \<and> ancestor \<noteq> [] \<longrightarrow>
            generateComponentDoc (Suc (Suc n)) w g p cat st =
              assemble_doc (generateComponentDoc (Suc n) w g) w g p cat sources
                (r_props res) (Some ancestor)
                (emit (WarnNoParentPropsFile ancestor)
                   (emit (DebugResolvingParent ancestor None) st1)) \<and>
            (callback_events w g p (basename p) \<noteq> None \<and>
             childComponents (config g) (basename p) = None \<longrightarrow>
               (\<exists>doc. generateComponentDoc (Suc (Suc n)) w g p cat st =
                        Some (Some doc, emit (WarnNoParentPropsFile ancestor)
                                          (emit (DebugResolvingParent ancestor None) st1)) \<and>
                      props doc = filter (keep_prop (documentation (config g)) (basename p))
                                    (r_props res))))"
proof -
  have nf: "findParentPropsFile w g ancestor = None"
    using assms(2) by (rule findParentPropsFile_not_found)
  have inh: "getInheritedProps (Suc n) w g ancestor s =
           Some ([], emit (WarnNoParentPropsFile ancestor)
                       (emit (DebugResolvingParent ancestor None) s))" for s
    using assms(1) nf by (rule getInheritedProps_not_found)
  have gen: "generateComponentDoc (Suc (Suc n)) w g p cat st =
              assemble_doc (generateComponentDoc (Suc n) w g) w g p cat sources
                (r_props res) (Some ancestor)
                (emit (WarnNoParentPropsFile ancestor)
                   (emit (DebugResolvingParent ancestor None) st1))"
    if "extractComponentSources w p st = Some (sources, st1)"
      and "truthy (src_props sources) = Some src"
      and "extractProps (createSourceFile w) src = Some res"
      and "r_baseClass res = Some ancestor" and "ancestor \<noteq> []"
    for sources st1 src res
    using that inh [of st1] by (simp add: parse_props_def del: getInheritedProps.simps)
  have doc: "\<exists>doc. assemble_doc gen w g p cat sources ps b s = Some (Some doc, s) \<and>
                   props doc = filter (keep_prop (documentation (config g)) (basename p)) ps"
    if "callback_events w g p (basename p) \<noteq> None"
      and "childComponents (config g) (basename p) = None"
    for gen sources ps b s
    using that by (auto simp: assemble_doc_def configured_children_def filterComponentDoc_props)
  have p2: "generateComponentDoc (Suc (Suc n)) w g p cat st =
              assemble_doc (generateComponentDoc (Suc n) w g) w g p cat sources
                (r_props res) (Some ancestor)
                (emit (WarnNoParentPropsFile ancestor)
                   (emit (DebugResolvingParent ancestor None) st1))"
    if "extractComponentSources w p st = Some (sources, st1) \<and>
            truthy (src_props sources) = Some src \<and>
            extractProps (createSourceFile w) src = Some res \<and>
            r_baseClass res = Some ancestor \<and> ancestor \<noteq> []"
    for sources st1 src res
    using that gen by blast
  have p3: "\<exists>doc. generateComponentDoc (Suc (Suc n)) w g p cat st =
                        Some (Some doc, emit (WarnNoParentPropsFile ancestor)
                                          (emit (DebugResolvingParent ancestor None) st1)) \<and>
                      props doc = filter (keep_prop (documentation (config g)) (basename p))
                                    (r_props res)"
    if a: "extractComponentSources w p st = Some (sources, st1) \<and>
            truthy (src_props sources) = Some src \<and>
            extractProps (createSourceFile w) src = Some res \<and>
            r_baseClass res = Some ancestor \<and> ancestor \<noteq> []"
      and b: "callback_events w g p (basename p) \<noteq> None \<and>
             childComponents (config g) (basename p) = None"
    for sources st1 src res
    unfolding p2 [OF a]
    using b doc [of "generateComponentDoc (Suc n) w g" sources "r_props res" "Some ancestor"
        "emit (WarnNoParentPropsFile ancestor) (emit (DebugResolvingParent ancestor None) st1)"]
    by blast
  show ?thesis
    apply (intro conjI allI impI)
      apply (rule inh)
     apply (erule p2)
    apply (erule (1) p3)
    done
qed

theorem unresolved_ancestor_is_not_fatal_witness:
  "''MissingParentProps'' \<noteq> ''BaseProps'' \<and>
   parent_candidates ''MissingParentProps'' = [''missingparent'', ''missing-parent''] \<and>
   ''missingparent.props.js.map'' \<notin> files_under sample_world [''lib'', ''components''] \<and>
   ''missingparent.props.js.map'' \<notin> files_under sample_world [''lib'', ''core''] \<and>
   ''missing-parent.props.js.map'' \<notin> files_under sample_world [''lib'', ''components''] \<and>
   ''missing-parent.props.js.map'' \<notin> files_under sample_world [''lib'', ''core''] \<and>
   getInheritedProps 1 sample_world sample_generator ''MissingParentProps'' initial_state =
     Some ([], sample_orphan_state) \<and>
   generateComponentDoc 2 sample_world sample_generator sample_orphan_path ''basic'' initial_state =
     Some (Some sample_orphan_doc, sample_orphan_state)"
proof -
  have c: "parent_candidates ''MissingParentProps'' = [''missingparent'', ''missing-parent'']"
    by code_simp
  have s: "searchPaths sample_generator = [[''lib'', ''components''], [''lib'', ''core'']]"
    by code_simp
  have f1: "''missingparent.props.js.map'' \<notin> files_under sample_world [''lib'', ''components'']"
    by code_simp
  have f2: "''missingparent.props.js.map'' \<notin> files_under sample_world [''lib'', ''core'']"
    by code_simp
  have f3: "''missing-parent.props.js.map'' \<notin> files_under sample_world [''lib'', ''components'']"
    by code_simp
  have f4: "''missing-parent.props.js.map'' \<notin> files_under sample_world [''lib'', ''core'']"
    by code_simp
  have hyp: "\<forall>cand \<in> set (parent_candidates ''MissingParentProps'').
               \<forall>sp \<in> set (searchPaths sample_generator).
                 cand @ ''.props.js.map'' \<notin> files_under sample_world sp"
    using f1 f2 f3 f4 by (simp add: c s)
  have ne: "''MissingParentProps'' \<noteq> ''BaseProps''" by simp
  note t = unresolved_ancestor_is_not_fatal [OF ne hyp, of 0 initial_state]
  have i: "getInheritedProps 1 sample_world sample_generator ''MissingParentProps'' initial_state =
     Some ([], sample_orphan_state)"
    using t by (simp add: sample_orphan_state_def emit_def initial_state_def)
  have g: "generateComponentDoc 2 sample_world sample_generator sample_orphan_path ''basic''
             initial_state = Some (Some sample_orphan_doc, sample_orphan_state)"
    by code_simp
  show ?thesis using ne c f1 f2 f3 f4 i g by blast
qed

section \<open>Claim C9: resolving an ancestor twice\<close>

text \<open>
  C9 as stated: for every ancestor name, two resolutions in the same run return the same
  list. The recursion up the chain has no guard against a chain that comes back to
  itself: what ends it is the call stack, and the \<^verbatim>\<open>catch\<close> around the recursive call
  turns the \<^verbatim>\<open>RangeError\<close> into a result, the properties collected down to the
  deepest call that the stack had room for. The length of the list is then the room
  that the stack had, which differs between two calls of one run (the resolution for a
  component and the one for its configured child are at different depths). In the
  sample library the artifact found for \<^verbatim>\<open>WidgetProps\<close>, \<^verbatim>\<open>widget.props.js.map\<close>,
  declares \<^verbatim>\<open>class WmWidgetProps extends WidgetProps\<close>: with room for three calls the
  resolution returns the property \<^verbatim>\<open>w\<close> three times, and the next resolution, with
  room for two, returns it twice.
\<close>

theorem cyclic_chain_depends_on_stack_counterexample:
  "findParentPropsFile sample_world sample_generator ''WidgetProps'' =
     Some [''lib'', ''components'', ''basic'', ''widget'', ''widget.props.js.map''] \<and>
   map_option r_baseClass (resolve_artifact sample_world sample_generator ''WidgetProps'') =
     Some (Some ''WidgetProps'') \<and>
   resolve_twice 3 2 sample_world sample_generator ''WidgetProps'' initial_state =
     Some ([sample_widget_inherited, sample_widget_inherited, sample_widget_inherited],
           [sample_widget_inherited, sample_widget_inherited])"
  by code_simp

text \<open>
  C9, amended: for every ancestor name whose chain of ancestors ends within the room
  that the call stack leaves to each of the two resolutions (at the root, at a name
  without artifact or declaration, or at a declaration without ancestor; for the root
  itself any room of one call is enough), both resolutions return, and they return the
  same list: the second at once after the first, and also after any call of
  \<^verbatim>\<open>generateComponentDoc\<close> in between, which returns as well. A filled cache of the root
  property set is never changed, neither by a resolution nor by the generation of a
  component; and when the resolution of the root returns properties, they are the cached
  ones. (The source hands the cached array only to \<^verbatim>\<open>Array.prototype.map\<close>, which
  copies every descriptor, so no caller can change it in place.)
\<close>

theorem ancestor_resolution_deterministic_on_ending_chain:
  assumes "chain_within n w g ancestor" and "chain_within m w g ancestor"
  shows "\<exists>r st1.
           getInheritedProps n w g ancestor st = Some (r, st1) \<and>
           (\<exists>st2. getInheritedProps m w g ancestor st1 = Some (r, st2)) \<and>
           (\<forall>k p cat. \<exists>d st2 st3.
              generateComponentDoc (Suc k) w g p cat st1 = Some (d, st2) \<and>
              getInheritedProps m w g ancestor st2 = Some (r, st3) \<and>
              (\<forall>c. basePropsCache st1 = Some c \<longrightarrow> basePropsCache st2 = Some c)) \<and>
           (\<forall>c. basePropsCache st = Some c \<longrightarrow> basePropsCache st1 = Some c) \<and>
           (ancestor = ''BaseProps'' \<and> r \<noteq> [] \<longrightarrow>
              (\<exists>ps. basePropsCache st1 = Some ps \<and> r = map (tag_inherited ''BaseProps'') ps))"
proof -
  obtain n' m' where n: "n = Suc n'" and m: "m = Suc m'"
    using chain_within_positive [OF assms(1)] chain_within_positive [OF assms(2)] by blast
  define r where "r = chain_props n w g (root_props w g st) ancestor"
  from getInheritedProps_chain [of n' w g ancestor st] obtain st1 where
    first: "getInheritedProps n w g ancestor st = Some (r, st1)" and k1: "keeps w g st st1"
    unfolding n r_def by blast
  have same: "\<exists>st3. getInheritedProps m w g ancestor s = Some (r, st3)" if "keeps w g st1 s" for s
  proof -
    have "root_props w g s = root_props w g st" using that k1 by (simp add: keeps_def)
    moreover have "chain_props m w g (root_props w g st) ancestor = r"
      unfolding r_def by (rule chain_props_depth [OF assms(2) assms(1)])
    ultimately show ?thesis
      using getInheritedProps_chain [of m' w g ancestor s] unfolding m by auto
  qed
  have second: "\<exists>st2. getInheritedProps m w g ancestor st1 = Some (r, st2)"
    by (rule same) simp
  have between: "\<exists>d st2 st3.
      generateComponentDoc (Suc k) w g p cat st1 = Some (d, st2) \<and>
      getInheritedProps m w g ancestor st2 = Some (r, st3) \<and>
      (\<forall>c. basePropsCache st1 = Some c \<longrightarrow> basePropsCache st2 = Some c)" for k p cat
  proof -
    from generateComponentDoc_total [of k w g p cat st1] obtain d st2 where
      gen: "generateComponentDoc (Suc k) w g p cat st1 = Some (d, st2)" by blast
    have k2: "keeps w g st1 st2" using gen by (rule keeps_generateComponentDoc)
    from same [OF k2] obtain st3 where "getInheritedProps m w g ancestor st2 = Some (r, st3)"
      by blast
    moreover have "\<forall>c. basePropsCache st1 = Some c \<longrightarrow> basePropsCache st2 = Some c"
      using k2 by (simp add: keeps_def)
    ultimately show ?thesis using gen by blast
  qed
  have cache: "\<forall>c. basePropsCache st = Some c \<longrightarrow> basePropsCache st1 = Some c"
    using k1 by (simp add: keeps_def)
  have root: "\<exists>ps. basePropsCache st1 = Some ps \<and> r = map (tag_inherited ''BaseProps'') ps"
    if "ancestor = ''BaseProps'' \<and> r \<noteq> []"
  proof -
    from first that have rr: "r = map (tag_inherited ''BaseProps'') (root_props w g st)"
      and s: "st1 = snd (getBaseProps w g st)"
      unfolding n
      by (auto simp: getInheritedProps_root getBaseProps_fst simp del: getInheritedProps.simps)
    have ne: "root_props w g st \<noteq> []" using rr that by auto
    have "basePropsCache st1 = Some (root_props w g st)"
      using ne unfolding s getBaseProps_cache
      by (auto simp: root_props_def split: option.splits)
    with rr show ?thesis by blast
  qed
  from first second between cache root show ?thesis by blast
qed

theorem ancestor_resolution_deterministic_on_ending_chain_witness:
  "chain_within 2 sample_world sample_generator ''BaseInputProps'' \<and>
   chain_within 3 sample_world sample_generator ''BaseInputProps'' \<and>
   getInheritedProps 2 sample_world sample_generator ''BaseInputProps'' initial_state =
     Some (sample_baseinput_inherited, sample_button_state) \<and>
   resolved (getInheritedProps 3 sample_world sample_generator ''BaseInputProps'' sample_button_state) =
     sample_baseinput_inherited \<and>
   basePropsCache sample_button_state = Some sample_base_props"
proof -
  have a: "chain_within 2 sample_world sample_generator ''BaseInputProps''"
    by code_simp
  have b: "chain_within 3 sample_world sample_generator ''BaseInputProps''"
    by code_simp
  have h: "getInheritedProps 2 sample_world sample_generator ''BaseInputProps'' initial_state =
     Some (sample_baseinput_inherited, sample_button_state)"
    by code_simp
  from ancestor_resolution_deterministic_on_ending_chain [OF a b, of initial_state] h
  obtain st2 where
    "getInheritedProps 3 sample_world sample_generator ''BaseInputProps'' sample_button_state =
       Some (sample_baseinput_inherited, st2)"
    by auto
  then have c: "resolved (getInheritedProps 3 sample_world sample_generator ''BaseInputProps''
      sample_button_state) = sample_baseinput_inherited"
    by (simp add: resolved_def)
  show ?thesis using a b h c by (simp add: sample_button_state_def)
qed

section \<open>Claim C10: the last Props declaration wins\<close>

text \<open>
  C10: properties extraction returns what the visitor assigns for the last declaration,
  in document order, among the classes, interfaces and object-type aliases whose name
  ends in \<^verbatim>\<open>Props\<close>: its members, its name and its declared ancestor. The earlier
  ones are discarded; without any such declaration the result is \<^verbatim>\<open>null\<close>.
\<close>

theorem extractProps_returns_last_declaration:
  "extractProps csf src = last_option (props_declarations (csf src)) \<and>
   (\<forall>earlier d. props_declarations (csf src) = earlier @ [d] \<longrightarrow> extractProps csf src = Some d)"
  by (simp add: extractProps_last last_option_def)

theorem extractProps_returns_last_declaration_witness:
  "props_declarations (c10_createSourceFile ''source'') =
     [c10_first_result, c10_inner_result] @ [c10_last_result] \<and>
   extractProps c10_createSourceFile ''source'' = Some c10_last_result"
proof -
  have a: "props_declarations (c10_createSourceFile ''source'') =
     [c10_first_result, c10_inner_result] @ [c10_last_result]"
    by code_simp
  show ?thesis
    using extractProps_returns_last_declaration [of c10_createSourceFile "''source''"] a
    by blast
qed

end
